theory Spec2Isabelle
  imports Complex_Main "HOL-Library.Sublist"
begin

section \<open>Library operations the servers call\<close>

text \<open>
  The servers are Python programs. A Python string is a sequence of Unicode code points
  and is modelled as a list of integers; \<open>str\<close> turns a literal of ASCII
  characters into such a string. The functions of this section are the operations of
  Python's \<^verbatim>\<open>str\<close>, \<^verbatim>\<open>posixpath\<close> and \<^verbatim>\<open>pathlib\<close> that the handlers call,
  written after the library's own code.
\<close>

type_synonym pystr = "int list"

definition str :: "string \<Rightarrow> pystr" where
  "str s = map of_char s"

abbreviation chr_cr :: int where "chr_cr \<equiv> 13"
abbreviation chr_lf :: int where "chr_lf \<equiv> 10"
abbreviation chr_dot :: int where "chr_dot \<equiv> 46"
abbreviation chr_slash :: int where "chr_slash \<equiv> 47"

text \<open>\<^verbatim>\<open>request.split("\r\n")[0]\<close>: the text before the first CR LF.\<close>

fun first_line :: "pystr \<Rightarrow> pystr" where
  "first_line [] = []"
| "first_line [c] = [c]"
| "first_line (c # d # cs) =
     (if c = chr_cr \<and> d = chr_lf then [] else c # first_line (d # cs))"

text \<open>
  \<^verbatim>\<open>str.split()\<close> with no argument: the maximal runs of characters that are not
  whitespace. The whitespace characters are those of \<^verbatim>\<open>str.isspace\<close>: U+0009 to
  U+000D, U+001C to U+0020, U+0085, U+00A0, U+1680, U+2000 to U+200A, U+2028, U+2029,
  U+202F, U+205F and U+3000.
\<close>

definition is_space :: "int \<Rightarrow> bool" where
  "is_space c =
     (c \<in> set [0x09, 0x0A, 0x0B, 0x0C, 0x0D, 0x1C, 0x1D, 0x1E, 0x1F, 0x20, 0x85, 0xA0,
               0x1680, 0x2000, 0x2001, 0x2002, 0x2003, 0x2004, 0x2005, 0x2006, 0x2007,
               0x2008, 0x2009, 0x200A, 0x2028, 0x2029, 0x202F, 0x205F, 0x3000])"

fun split_from :: "pystr \<Rightarrow> pystr \<Rightarrow> pystr list" where
  "split_from word [] = (if word = [] then [] else [word])"
| "split_from word (c # cs) =
     (if is_space c then (if word = [] then split_from [] cs else word # split_from [] cs)
      else split_from (word @ [c]) cs)"

definition split_ws :: "pystr \<Rightarrow> pystr list" where
  "split_ws s = split_from [] s"

text \<open>\<^verbatim>\<open>str.split(sep)\<close> for a one-character separator, and \<^verbatim>\<open>"/".join\<close>.\<close>

fun split_on :: "int \<Rightarrow> pystr \<Rightarrow> pystr \<Rightarrow> pystr list" where
  "split_on sep word [] = [word]"
| "split_on sep word (c # cs) =
     (if c = sep then word # split_on sep [] cs else split_on sep (word @ [c]) cs)"

fun join_sep :: "pystr list \<Rightarrow> pystr" where
  "join_sep [] = []"
| "join_sep [seg] = seg"
| "join_sep (seg # segs) = seg @ [chr_slash] @ join_sep segs"

text \<open>\<^verbatim>\<open>url_path.lstrip("/")\<close>.\<close>

definition lstrip_slash :: "pystr \<Rightarrow> pystr" where
  "lstrip_slash s = dropWhile (\<lambda>c. c = chr_slash) s"

text \<open>\<^verbatim>\<open>posixpath.join(a, b)\<close>.\<close>

definition os_path_join :: "pystr \<Rightarrow> pystr \<Rightarrow> pystr" where
  "os_path_join a b =
     (if prefix [chr_slash] b then b
      else if a = [] \<or> last a = chr_slash then a @ b
      else a @ [chr_slash] @ b)"

text \<open>\<^verbatim>\<open>posixpath.normpath\<close>: the loop over the components, then the function.\<close>

fun collapse :: "bool \<Rightarrow> pystr list \<Rightarrow> pystr list \<Rightarrow> pystr list" where
  "collapse rooted new_comps [] = new_comps"
| "collapse rooted new_comps (seg # segs) =
     (if seg = [] \<or> seg = [chr_dot] then collapse rooted new_comps segs
      else if seg \<noteq> [chr_dot, chr_dot] \<or> (\<not> rooted \<and> new_comps = [])
                \<or> (new_comps \<noteq> [] \<and> last new_comps = [chr_dot, chr_dot])
        then collapse rooted (new_comps @ [seg]) segs
      else if new_comps \<noteq> [] then collapse rooted (butlast new_comps) segs
      else collapse rooted new_comps segs)"

definition normpath :: "pystr \<Rightarrow> pystr" where
  "normpath path =
     (if path = [] then [chr_dot]
      else
        let initial_slashes =
              (if prefix [chr_slash] path
               then (if prefix [chr_slash, chr_slash] path
                        \<and> \<not> prefix [chr_slash, chr_slash, chr_slash] path then 2 else 1)
               else (0::nat));
            segs = collapse (0 < initial_slashes) [] (split_on chr_slash [] path);
            joined = replicate initial_slashes chr_slash @ join_sep segs
        in if joined = [] then [chr_dot] else joined)"

text \<open>\<^verbatim>\<open>posixpath.abspath\<close>; the first argument is what \<^verbatim>\<open>os.getcwd()\<close> returns.\<close>

definition abspath :: "pystr \<Rightarrow> pystr \<Rightarrow> pystr" where
  "abspath cwd path =
     normpath (if prefix [chr_slash] path then path else os_path_join cwd path)"

text \<open>
  \<^verbatim>\<open>Path(file_path).suffix\<close> (pathlib of Python 3.12 and before): the last dot of
  the final component and what follows it, when that dot is neither the first nor the
  last character.
\<close>

definition path_name :: "pystr \<Rightarrow> pystr" where
  "path_name path =
     (let name = last (split_on chr_slash [] path) in if name = [chr_dot] then [] else name)"

definition path_suffix :: "pystr \<Rightarrow> pystr" where
  "path_suffix path =
     (let name = path_name path;
          after_dot = rev (takeWhile (\<lambda>c. c \<noteq> chr_dot) (rev name))
      in if chr_dot \<in> set name \<and> after_dot \<noteq> []
            \<and> 0 < length name - length after_dot - 1
         then chr_dot # after_dot else [])"

text \<open>
  \<^verbatim>\<open>s.encode("utf-8")\<close> raises exactly when the string holds a surrogate code point
  (U+D800 to U+DFFF); \<^verbatim>\<open>os.listdir\<close> returns such code points in the names that
  are not UTF-8 on disk.
\<close>

definition encodable :: "pystr \<Rightarrow> bool" where
  "encodable s = list_all (\<lambda>c. c < 0xD800 \<or> 0xDFFF < c) s"

section \<open>Data model\<close>

text \<open>\<^verbatim>\<open>SERVER_MODE\<close> of Lab 2/server.py, one of "single", "multi", "race",
  "threadsafe", "ratelimit".\<close>

datatype mode = Single | Multi | Race | ThreadSafe | RateLimited

text \<open>
  What the operating system answers for a path: nothing there, a directory (with the
  sorted result of \<^verbatim>\<open>os.listdir\<close>, or \<open>None\<close> when listing raises), or a file
  (with its bytes, or the message of the exception that \<^verbatim>\<open>open\<close> raises).
\<close>

datatype node = Directory "pystr list option" | RegularFile "pystr + pystr"

text \<open>
  The environment of a server: its mode, the served root, the working directory, the
  file system, and two functions of Python's library that are taken as they are:
  \<^verbatim>\<open>urllib.parse.unquote\<close> and \<^verbatim>\<open>str.lower\<close>.
\<close>

record env =
  server_mode :: mode
  base_dir :: pystr
  cwd :: pystr
  fs :: "pystr \<Rightarrow> node option"
  unquote :: "pystr \<Rightarrow> pystr"
  lower :: "pystr \<Rightarrow> pystr"

type_synonym hit_counts = "pystr \<rightharpoonup> int"

type_synonym limiter = "string \<rightharpoonup> real list"

record server_state =
  file_hits :: hit_counts
  rate_limits :: limiter

text \<open>A row of a directory listing: link target, displayed name, displayed hits.\<close>

type_synonym row = "pystr \<times> pystr \<times> int option"

text \<open>
  The exceptions that reach a handler's \<^verbatim>\<open>except\<close> clause: \<^verbatim>\<open>open\<close> raising
  (with the message of the exception) and \<^verbatim>\<open>html.encode("utf-8")\<close> raising.
\<close>

datatype fault = OpenFailed pystr | EncodeFailed

text \<open>
  The body of a response: literal or file bytes, a directory listing (by its rows, or
  the error row when \<^verbatim>\<open>os.listdir\<close> raised), a listing page left uninterpreted, or
  the text "Internal Server Error: " followed by the message of the exception caught.
\<close>

datatype body =
    Bytes pystr
  | Listing pystr "row list option"
  | RenderedListing pystr pystr
  | InternalServerError fault

record response =
  status :: nat
  content_type :: string
  body :: body

definition send_response :: "nat \<Rightarrow> string \<Rightarrow> body \<Rightarrow> response" where
  "send_response status_code ctype b =
     \<lparr>status = status_code, content_type = ctype, body = b\<rparr>"

definition os_path_exists :: "env \<Rightarrow> pystr \<Rightarrow> bool" where
  "os_path_exists e p = (fs e p \<noteq> None)"

definition os_path_isdir :: "env \<Rightarrow> pystr \<Rightarrow> bool" where
  "os_path_isdir e p = (case fs e p of Some (Directory _) \<Rightarrow> True | _ \<Rightarrow> False)"

text \<open>\<^verbatim>\<open>file_hits.get(key, 0)\<close>.\<close>

definition hits_get :: "hit_counts \<Rightarrow> pystr \<Rightarrow> int" where
  "hits_get h k = (case h k of None \<Rightarrow> 0 | Some v \<Rightarrow> v)"

section \<open>The rate limiter (Lab 2/server.py, rate\_limited)\<close>

text \<open>
  \<^verbatim>\<open>rate_limits\<close> is a \<^verbatim>\<open>defaultdict(list)\<close>: reading a missing key stores the
  empty list under it. Timestamps are POSIX seconds; \<open>now\<close> is the value that
  \<^verbatim>\<open>datetime.now().timestamp()\<close> returns in this call. The function returns the
  flag (\<open>True\<close>: the request is rejected) and the map it leaves behind.
\<close>

definition getitem_default :: "limiter \<Rightarrow> string \<Rightarrow> real list \<times> limiter" where
  "getitem_default d k = (case d k of None \<Rightarrow> ([], d(k \<mapsto> [])) | Some v \<Rightarrow> (v, d))"

definition rate_limited :: "real \<Rightarrow> string \<Rightarrow> limiter \<Rightarrow> bool \<times> limiter" where
  "rate_limited now ip_addr rate_limits0 =
     (let (timestamps, rl1) = getitem_default rate_limits0 ip_addr;
          rl2 = rl1(ip_addr \<mapsto> [ts \<leftarrow> timestamps. now - ts < 1]);
          (kept, rl3) = getitem_default rl2 ip_addr
      in if 5 \<le> length kept then (True, rl3)
         else (let (cur, rl4) = getitem_default rl3 ip_addr
               in (False, rl4(ip_addr \<mapsto> cur @ [now]))))"

text \<open>The timestamps recorded for an address (none for an address never seen).\<close>

definition recorded :: "limiter \<Rightarrow> string \<Rightarrow> real list" where
  "recorded rl ip_addr = (case rl ip_addr of None \<Rightarrow> [] | Some ts \<Rightarrow> ts)"

text \<open>Successive checks for one address, at the given clock readings.\<close>

fun checks_for :: "string \<Rightarrow> real list \<Rightarrow> limiter \<Rightarrow> bool list \<times> limiter" where
  "checks_for ip_addr [] rl = ([], rl)"
| "checks_for ip_addr (now # later) rl =
     (let (r, rl1) = rate_limited now ip_addr rl;
          (rs, rl2) = checks_for ip_addr later rl1
      in (r # rs, rl2))"

text \<open>The limiter after any sequence of checks (clock reading, address).\<close>

fun limiter_after :: "(real \<times> string) list \<Rightarrow> limiter \<Rightarrow> limiter" where
  "limiter_after [] rl = rl"
| "limiter_after ((now, ip_addr) # later) rl =
     limiter_after later (snd (rate_limited now ip_addr rl))"

text \<open>
  The check as the specification words it (section 4.2, steps 2 to 4): drop the
  timestamps older than \<open>now - 1\<close>, reject when five or more remain, otherwise append.
\<close>

definition check_spec :: "real \<Rightarrow> string \<Rightarrow> limiter \<Rightarrow> bool \<times> limiter" where
  "check_spec now address m =
     (let pruned = [ts \<leftarrow> recorded m address. \<not> ts < now - 1]
      in if 5 \<le> length pruned then (True, m(address \<mapsto> pruned))
         else (False, m(address \<mapsto> pruned @ [now])))"

section \<open>The hit counter (Lab 2/server.py, handle\_client, lines 205 to 216)\<close>

text \<open>
  The counter code of a handler, as the sequence of its steps on the shared state:
  \<^verbatim>\<open>with counter_lock:\<close> acquires the lock on entry and releases it on exit,
  \<^verbatim>\<open>current_count = file_hits.get(file_path, 0)\<close> reads,
  \<^verbatim>\<open>time.sleep(0.001)\<close> waits, and
  \<^verbatim>\<open>file_hits[file_path] = current_count + 1\<close> writes. The two \<^verbatim>\<open>if\<close>
  statements of the source follow each other, as the two halves below do.
\<close>

datatype op = Acquire | ReadCount | Sleep | WriteCount | Release

definition counter_code :: "mode \<Rightarrow> op list" where
  "counter_code m =
     (if m = Race then [ReadCount, Sleep, WriteCount] else [])
     @ (if m = ThreadSafe \<or> m = RateLimited
        then [Acquire, ReadCount, Sleep, WriteCount, Release] else [])"

text \<open>
  A handler thread inside the counter code: its key (\<^verbatim>\<open>file_path\<close>), the steps it
  has still to take, and its local variable \<^verbatim>\<open>current_count\<close> (unassigned until
  the read; 0 here). The shared state is the dictionary \<^verbatim>\<open>file_hits\<close> and the
  lock, which is free (\<open>None\<close>) or held by the thread of that index.
\<close>

record thread =
  key :: pystr
  todo :: "op list"
  current_count :: int

record counter_state =
  hits :: hit_counts
  counter_lock :: "nat option"
  threads :: "thread list"

text \<open>
  One step of thread \<open>i\<close>. A thread at \<open>Acquire\<close> while the lock is held is blocked:
  scheduling it changes nothing. A thread with nothing left to do has finished.
\<close>

definition step :: "nat \<Rightarrow> counter_state \<Rightarrow> counter_state" where
  "step i c =
     (if i < length (threads c) then
        (let t = threads c ! i in
         case todo t of
           [] \<Rightarrow> c
         | Acquire # rest \<Rightarrow>
             (if counter_lock c = None
              then c\<lparr>counter_lock := Some i, threads := (threads c)[i := t\<lparr>todo := rest\<rparr>]\<rparr>
              else c)
         | ReadCount # rest \<Rightarrow>
             c\<lparr>threads := (threads c)[i := t\<lparr>todo := rest,
                                               current_count := hits_get (hits c) (key t)\<rparr>]\<rparr>
         | Sleep # rest \<Rightarrow>
             c\<lparr>threads := (threads c)[i := t\<lparr>todo := rest\<rparr>]\<rparr>
         | WriteCount # rest \<Rightarrow>
             c\<lparr>hits := (hits c)(key t \<mapsto> current_count t + 1),
               threads := (threads c)[i := t\<lparr>todo := rest\<rparr>]\<rparr>
         | Release # rest \<Rightarrow>
             c\<lparr>counter_lock := None, threads := (threads c)[i := t\<lparr>todo := rest\<rparr>]\<rparr>)
      else c)"

text \<open>A schedule names the thread that takes each successive step.\<close>

definition run :: "nat list \<Rightarrow> counter_state \<Rightarrow> counter_state" where
  "run schedule c = fold step schedule c"

text \<open>One handler per key enters the counter code, the lock free.\<close>

definition start :: "mode \<Rightarrow> pystr list \<Rightarrow> hit_counts \<Rightarrow> counter_state" where
  "start m keys h =
     \<lparr>hits = h, counter_lock = None,
      threads = map (\<lambda>k. \<lparr>key = k, todo = counter_code m, current_count = 0\<rparr>) keys\<rparr>"

definition finished :: "counter_state \<Rightarrow> bool" where
  "finished c = list_all (\<lambda>t. todo t = []) (threads c)"

text \<open>The counter code of one handler run alone, from entry to exit.\<close>

definition counter_update :: "mode \<Rightarrow> pystr \<Rightarrow> hit_counts \<Rightarrow> hit_counts" where
  "counter_update m file_path h =
     hits (run (replicate (length (counter_code m)) 0) (start m [file_path] h))"

text \<open>Handlers that run one after the other: thread 0 to its end, then thread 1, ...\<close>

definition sequential :: "mode \<Rightarrow> nat \<Rightarrow> nat list" where
  "sequential m n = concat (map (\<lambda>i. replicate (length (counter_code m)) i) [0..<n])"

section \<open>The connection handler of Lab 2/server.py\<close>

definition counter_mode :: "mode \<Rightarrow> bool" where
  "counter_mode m = (m = Race \<or> m = ThreadSafe \<or> m = RateLimited)"

definition listing_row :: "env \<Rightarrow> hit_counts \<Rightarrow> pystr \<Rightarrow> pystr \<Rightarrow> pystr \<Rightarrow> row" where
  "listing_row e h dir_path url_path item =
     (let fpath = os_path_join dir_path item;
          display_name = (if os_path_isdir e fpath then item @ [chr_slash] else item);
          item_url = (if url_path \<noteq> [] \<and> last url_path = chr_slash
                      then url_path @ item else url_path @ [chr_slash] @ item);
          shown = (if counter_mode (server_mode e) then Some (hits_get h fpath) else None)
      in (item_url, display_name, shown))"

definition generate_directory_listing ::
  "env \<Rightarrow> hit_counts \<Rightarrow> pystr \<Rightarrow> pystr \<Rightarrow> body" where
  "generate_directory_listing e h dir_path url_path =
     Listing url_path
       (case fs e dir_path of
          Some (Directory (Some items)) \<Rightarrow> Some (map (listing_row e h dir_path url_path) items)
        | _ \<Rightarrow> None)"

text \<open>
  Whether \<^verbatim>\<open>html.encode("utf-8")\<close> succeeds on the page of a listing. Besides ASCII
  text and numbers the page holds \<^verbatim>\<open>url_path\<close> and the names of the items; the
  error row of a failed \<^verbatim>\<open>os.listdir\<close> shows the message of the exception, in which
  names stand escaped.
\<close>

definition listing_encodable :: "env \<Rightarrow> pystr \<Rightarrow> pystr \<Rightarrow> bool" where
  "listing_encodable e dir_path url_path =
     (encodable url_path
      \<and> (case fs e dir_path of
            Some (Directory (Some items)) \<Rightarrow> list_all encodable items
          | _ \<Rightarrow> True))"

definition supported_extensions :: "pystr list" where
  "supported_extensions = [str ''.html'', str ''.htm'', str ''.png'', str ''.pdf'']"

definition get_content_type :: "env \<Rightarrow> pystr \<Rightarrow> string" where
  "get_content_type e file_path =
     (case map_of [(str ''.html'', ''text/html''), (str ''.htm'', ''text/html''),
                   (str ''.png'', ''image/png''), (str ''.pdf'', ''application/pdf'')]
                  (lower e (path_suffix file_path)) of
        Some t \<Rightarrow> t
      | None \<Rightarrow> ''application/octet-stream'')"

text \<open>\<^verbatim>\<open>with open(file_path, "rb") as f: content = f.read()\<close>: the bytes, or the
  message of the exception raised.\<close>

definition read_file :: "env \<Rightarrow> pystr \<Rightarrow> pystr + pystr" where
  "read_file e file_path =
     (case fs e file_path of
        Some (RegularFile r) \<Rightarrow> r
      | Some (Directory _) \<Rightarrow> Inl (str ''Is a directory'')
      | None \<Rightarrow> Inl (str ''No such file or directory''))"

text \<open>
  Lines 146 to 152: the path the request resolves to; lines 153 to 156: the test that
  guards the 403 response.
\<close>

definition resolve :: "env \<Rightarrow> pystr \<Rightarrow> pystr" where
  "resolve e url_path =
     normpath (if url_path = [chr_slash] then base_dir e
               else os_path_join (base_dir e) (lstrip_slash url_path))"

definition starts_with_base :: "env \<Rightarrow> pystr \<Rightarrow> bool" where
  "starts_with_base e file_path =
     prefix (abspath (cwd e) (base_dir e)) (abspath (cwd e) file_path)"

definition not_found_body :: body where
  "not_found_body =
     Bytes (str ''<!DOCTYPE html><html><body><h1>404 Not Found</h1><p>File not found.</p></body></html>'')"

definition forbidden_body :: body where
  "forbidden_body =
     Bytes (str ''<!DOCTYPE html><html><body><h1>403 Forbidden</h1><p>Access denied.</p></body></html>'')"

text \<open>
  The end of the handler, which the source writes three times (for "single", for
  "multi", and for the counter modes): directory listing, extension test, file. The
  result is the response sent, or the exception raised on the way (by
  \<^verbatim>\<open>html.encode\<close> or by \<^verbatim>\<open>open\<close>).
\<close>

definition serve_resource ::
  "env \<Rightarrow> hit_counts \<Rightarrow> pystr \<Rightarrow> pystr \<Rightarrow> fault + response" where
  "serve_resource e h file_path url_path =
     (if os_path_isdir e file_path
      then (let html = generate_directory_listing e h file_path url_path
            in if listing_encodable e file_path url_path
               then Inr (send_response 200 ''text/html'' html)
               else Inl EncodeFailed)
      else if lower e (path_suffix file_path) \<notin> set supported_extensions
      then Inr (send_response 404 ''text/html'' (Bytes (str ''File type not supported'')))
      else (case read_file e file_path of
              Inr content \<Rightarrow> Inr (send_response 200 (get_content_type e file_path) (Bytes content))
            | Inl msg \<Rightarrow> Inl (OpenFailed msg)))"

text \<open>
  The \<^verbatim>\<open>except Exception\<close> clause of the handler: an exception raised while
  serving is answered with 500. The message of the exception has its names escaped, so
  that encoding the 500 body does not raise.
\<close>

definition answer_of :: "fault + response \<Rightarrow> response" where
  "answer_of r =
     (case r of
        Inr sent \<Rightarrow> sent
      | Inl f \<Rightarrow> send_response 500 ''text/plain'' (InternalServerError f))"

text \<open>
  \<open>handle_client e s now client_ip request\<close>: \<open>request\<close> is the decoded text that
  \<^verbatim>\<open>recv\<close> returned, \<open>client_ip\<close> is \<^verbatim>\<open>client_address[0]\<close>, \<open>now\<close> the clock
  reading of the rate check. The result is the response sent (none when the request is
  empty) and the state of the two dictionaries afterwards. The socket is taken to
  accept every response. The test \<^verbatim>\<open>if not lines\<close> of the source never
  succeeds (\<^verbatim>\<open>split\<close> returns at least one string) and has no branch here.
  The counter code is that of the handler run alone, with no step of another handler
  between its steps; the section on the hit counter has the interleaved runs.
\<close>

definition handle_client ::
  "env \<Rightarrow> server_state \<Rightarrow> real \<Rightarrow> string \<Rightarrow> pystr \<Rightarrow> response option \<times> server_state" where
  "handle_client e s now client_ip request =
     (if request = [] then (None, s)
      else
        let request_line = split_ws (first_line request) in
        if length request_line < 2
        then (Some (send_response 400 ''text/plain'' (Bytes (str ''Bad Request''))), s)
        else
          let method = request_line ! 0;
              url_path = unquote e (request_line ! 1);
              (limited, s1) =
                (if server_mode e = RateLimited
                 then (let (r, rl) = rate_limited now client_ip (rate_limits s)
                       in (r, s\<lparr>rate_limits := rl\<rparr>))
                 else (False, s))
          in
          if limited
          then (Some (send_response 429 ''text/plain'' (Bytes (str ''Too Many Requests''))), s1)
          else if method \<noteq> str ''GET''
          then (Some (send_response 405 ''text/plain'' (Bytes (str ''Method Not Allowed''))), s1)
          else
            let file_path = resolve e url_path in
            if \<not> starts_with_base e file_path
            then (Some (send_response 403 ''text/html'' forbidden_body), s1)
            else if \<not> os_path_exists e file_path
            then (Some (send_response 404 ''text/html'' not_found_body), s1)
            else if server_mode e = Single
            then (Some (answer_of (serve_resource e (file_hits s1) file_path url_path)), s1)
            else if server_mode e = Multi
            then (Some (answer_of (serve_resource e (file_hits s1) file_path url_path)), s1)
            else
              let s2 = s1\<lparr>file_hits :=
                           counter_update (server_mode e) file_path (file_hits s1)\<rparr>
              in (Some (answer_of (serve_resource e (file_hits s2) file_path url_path)), s2))"

section \<open>The handlers of Lab 1/server.py and Lab 2/server\_multithreaded.py\<close>

text \<open>
  These two variants keep no state. The page that their
  \<^verbatim>\<open>generate_directory_listing(dir_path, url_path)\<close> renders is left uninterpreted
  (\<open>RenderedListing dir_path url_path\<close>); it holds \<^verbatim>\<open>url_path\<close> and the names of
  the items, as the page of Lab 2/server.py does. Standard output is taken to accept
  every line the handlers print.
\<close>

definition serve_plain :: "env \<Rightarrow> pystr \<Rightarrow> pystr \<Rightarrow> body \<Rightarrow> fault + response" where
  "serve_plain e file_path url_path unsupported =
     (if os_path_isdir e file_path
      then (if listing_encodable e file_path url_path
            then Inr (send_response 200 ''text/html'' (RenderedListing file_path url_path))
            else Inl EncodeFailed)
      else if lower e (path_suffix file_path) \<notin> set supported_extensions
      then Inr (send_response 404 ''text/html'' unsupported)
      else (case read_file e file_path of
              Inr content \<Rightarrow> Inr (send_response 200 (get_content_type e file_path) (Bytes content))
            | Inl msg \<Rightarrow> Inl (OpenFailed msg)))"

definition handle_client_multithreaded :: "env \<Rightarrow> pystr \<Rightarrow> response option" where
  "handle_client_multithreaded e request =
     (if request = [] then None
      else
        let request_line = split_ws (first_line request) in
        if length request_line < 2
        then Some (send_response 400 ''text/plain'' (Bytes (str ''Bad Request'')))
        else
          let method = request_line ! 0;
              url_path = unquote e (request_line ! 1)
          in
          if method \<noteq> str ''GET''
          then Some (send_response 405 ''text/plain'' (Bytes (str ''Method Not Allowed'')))
          else
            let file_path = resolve e url_path in
            if \<not> starts_with_base e file_path
            then Some (send_response 403 ''text/html'' forbidden_body)
            else if \<not> os_path_exists e file_path
            then Some (send_response 404 ''text/html''
              (Bytes (str ''<!DOCTYPE html><html><body><h1>404 Not Found</h1><p>The requested file was not found.</p></body></html>'')))
            else Some (answer_of (serve_plain e file_path url_path
              (Bytes (str ''<!DOCTYPE html><html><body><h1>404 Not Found</h1><p>File type not supported. Server only supports HTML, PNG, and PDF files.</p></body></html>'')))))"

definition handle_request :: "env \<Rightarrow> pystr \<Rightarrow> response option" where
  "handle_request e request =
     (if request = [] then None
      else
        let parts = split_ws (first_line request) in
        if length parts < 2
        then Some (send_response 400 ''text/plain'' (Bytes (str ''Bad Request'')))
        else
          let method = parts ! 0;
              url_path0 = unquote e (parts ! 1)
          in
          if method \<noteq> str ''GET''
          then Some (send_response 405 ''text/plain'' (Bytes (str ''Method Not Allowed'')))
          else if url_path0 = [chr_slash]
                  \<and> \<not> os_path_exists e (os_path_join (base_dir e) (str ''index.html''))
          then Some (answer_of
                 (if listing_encodable e (base_dir e) [chr_slash]
                  then Inr (send_response 200 ''text/html''
                              (RenderedListing (base_dir e) [chr_slash]))
                  else Inl EncodeFailed))
          else
            let url_path = (if url_path0 = [chr_slash] then str ''/index.html'' else url_path0);
                file_path = normpath (os_path_join (base_dir e) (lstrip_slash url_path))
            in
            if \<not> starts_with_base e file_path
            then Some (send_response 403 ''text/plain'' (Bytes (str ''Forbidden'')))
            else if \<not> os_path_exists e file_path
            then Some (send_response 404 ''text/html''
              (Bytes (str ''<html><body><h1>404 Not Found</h1><p>The requested file was not found.</p></body></html>'')))
            else Some (answer_of (serve_plain e file_path url_path
              (Bytes (str ''<html><body><h1>404 Not Found</h1><p>File type not supported. Server only supports HTML, PNG, and PDF files.</p></body></html>'')))))"

text \<open>
  A path lies under a directory when the directory's components are the first
  components of the path (both absolute and normalised).
\<close>

definition lies_under :: "pystr \<Rightarrow> pystr \<Rightarrow> bool" where
  "lies_under served_root path =
     prefix (filter (\<lambda>seg. seg \<noteq> []) (split_on chr_slash [] served_root))
            (filter (\<lambda>seg. seg \<noteq> []) (split_on chr_slash [] path))"

section \<open>The invariant of the locked counter code\<close>

text \<open>
  In ThreadSafe and RateLimited mode a thread is outside the critical section (it has
  not acquired the lock yet, or it has finished) or inside it (it holds the lock and has
  between one and four steps left). A handler counts for a key once it has written.
\<close>

definition outside :: "thread \<Rightarrow> bool" where
  "outside t =
     (todo t = [Acquire, ReadCount, Sleep, WriteCount, Release] \<or> todo t = [])"

definition inside :: "thread \<Rightarrow> bool" where
  "inside t =
     (todo t = [ReadCount, Sleep, WriteCount, Release] \<or> todo t = [Sleep, WriteCount, Release]
      \<or> todo t = [WriteCount, Release] \<or> todo t = [Release])"

definition has_read :: "thread \<Rightarrow> bool" where
  "has_read t = (todo t = [Sleep, WriteCount, Release] \<or> todo t = [WriteCount, Release])"

definition counted :: "pystr \<Rightarrow> thread \<Rightarrow> int" where
  "counted k t = (if key t = k \<and> (todo t = [Release] \<or> todo t = []) then 1 else 0)"

definition lock_inv :: "hit_counts \<Rightarrow> counter_state \<Rightarrow> bool" where
  "lock_inv h0 c =
     ((\<forall>i < length (threads c). inside (threads c ! i) \<or> outside (threads c ! i))
      \<and> (\<forall>i < length (threads c). inside (threads c ! i) \<longleftrightarrow> counter_lock c = Some i)
      \<and> (\<forall>i < length (threads c). has_read (threads c ! i) \<longrightarrow>
            current_count (threads c ! i) = hits_get (hits c) (key (threads c ! i)))
      \<and> (\<forall>k. hits_get (hits c) k = hits_get h0 k + sum_list (map (counted k) (threads c))))"

section \<open>Concrete inputs\<close>

text \<open>
  A served root \<^verbatim>\<open>/srv/www\<close> with two directories (one of them holding a file whose
  name is not UTF-8 on disk and comes back from \<^verbatim>\<open>os.listdir\<close> with the surrogate
  U+DCFF), two supported files (one of them unreadable), a text file, and a sibling
  directory \<^verbatim>\<open>/srv/www-private\<close> outside the root. The requests below are ASCII
  text without percent escapes: \<^verbatim>\<open>unquote\<close> is the identity on them, and
  \<^verbatim>\<open>str.lower\<close> maps the letters A to Z to a to z. Requests are built as the
  repository's test clients build them.
\<close>

definition crlf :: pystr where
  "crlf = [chr_cr, chr_lf]"

definition ascii_lower :: "pystr \<Rightarrow> pystr" where
  "ascii_lower s = map (\<lambda>c. if 65 \<le> c \<and> c \<le> 90 then c + 32 else c) s"

definition example_fs :: "pystr \<Rightarrow> node option" where
  "example_fs =
     [str ''/srv/www'' \<mapsto>
        Directory (Some [str ''docs'', str ''index.html'', str ''locked.pdf'', str ''notes.txt'',
                         str ''raw'']),
      str ''/srv/www/docs'' \<mapsto> Directory (Some []),
      str ''/srv/www/raw'' \<mapsto> Directory (Some [str ''bad'' @ [0xDCFF] @ str ''.html'']),
      str ''/srv/www/index.html'' \<mapsto> RegularFile (Inr (str ''<html></html>'')),
      str ''/srv/www/locked.pdf'' \<mapsto> RegularFile (Inl (str ''Permission denied'')),
      str ''/srv/www/notes.txt'' \<mapsto> RegularFile (Inr (str ''notes'')),
      str ''/srv/www-private/secret.html'' \<mapsto> RegularFile (Inr (str ''secret''))]"

definition example_env :: "mode \<Rightarrow> env" where
  "example_env m =
     \<lparr>server_mode = m, base_dir = str ''/srv/www'', cwd = str ''/srv'', fs = example_fs,
      unquote = (\<lambda>s. s), lower = ascii_lower\<rparr>"

definition request_for :: "string \<Rightarrow> string \<Rightarrow> pystr" where
  "request_for method target =
     str (method @ '' '' @ target @ '' HTTP/1.1'') @ crlf @ str ''Host: localhost'' @ crlf @ crlf"

text \<open>A server that has seen no request, and one that has just admitted five requests
  of 10.0.0.1 (the clock of the examples reads 100).\<close>

definition idle :: server_state where
  "idle = \<lparr>file_hits = Map.empty, rate_limits = Map.empty\<rparr>"

definition busy :: server_state where
  "busy = \<lparr>file_hits = Map.empty,
           rate_limits = [''10.0.0.1'' \<mapsto> [99.5, 99.6, 99.7, 99.8, 99.9]]\<rparr>"

section \<open>Properties of the rate limiter\<close>

lemma rate_limited_eq:
  "rate_limited now a rl =
     (if 5 \<le> length [ts \<leftarrow> recorded rl a. now - ts < 1]
      then (True, rl(a \<mapsto> [ts \<leftarrow> recorded rl a. now - ts < 1]))
      else (False, rl(a \<mapsto> [ts \<leftarrow> recorded rl a. now - ts < 1] @ [now])))"
  by (simp add: rate_limited_def getitem_default_def recorded_def split: option.split)

lemma decision_eq:
  "fst (rate_limited now a rl) = (5 \<le> length [ts \<leftarrow> recorded rl a. now - ts < 1])"
  by (simp add: rate_limited_eq)

lemma recorded_after:
  "recorded (snd (rate_limited now a rl)) b =
     (if b = a
      then (if 5 \<le> length [ts \<leftarrow> recorded rl a. now - ts < 1]
            then [ts \<leftarrow> recorded rl a. now - ts < 1]
            else [ts \<leftarrow> recorded rl a. now - ts < 1] @ [now])
      else recorded rl b)"
  by (simp add: rate_limited_eq recorded_def)

text \<open>
  What the check does: it keeps exactly the recorded timestamps that are newer than
  \<open>now - 1\<close> (it drops every timestamp that is one second old or older, the one that
  is exactly one second old included); when five or more are kept it rejects and stores
  the kept sequence alone; otherwise it stores the kept sequence followed by \<open>now\<close> and
  admits.
\<close>

lemma rate_limited_prunes_then_decides:
  "rate_limited now a rl =
     (if 5 \<le> length [ts \<leftarrow> recorded rl a. now - 1 < ts]
      then (True, rl(a \<mapsto> [ts \<leftarrow> recorded rl a. now - 1 < ts]))
      else (False, rl(a \<mapsto> [ts \<leftarrow> recorded rl a. now - 1 < ts] @ [now])))"
proof -
  have "(\<lambda>ts. now - ts < 1) = (\<lambda>ts. now - 1 < ts)"
    by (rule ext) (simp add: algebra_simps)
  then show ?thesis
    by (simp add: rate_limited_eq)
qed

text \<open>
  Claim C2 at a failing input. An address is checked at the clock readings
  1700000000, 1700000000.25, 1700000000.5, 1700000000.75 and 1700000000.875: all five
  are admitted and recorded. At the reading 1700000001 the first timestamp is exactly
  one second old; it is not older than \<open>now - 1\<close>, so the check of the claim (and of
  the comment "Clean timestamps older than 1s") keeps five timestamps and rejects. The
  code drops it, since \<open>now - ts < 1\<close> is false, and admits the sixth request.
\<close>

theorem rate_limited_drops_timestamp_one_second_old:
  "fst (checks_for ''10.0.0.1''
          [1700000000, 1700000000.25, 1700000000.5, 1700000000.75, 1700000000.875] Map.empty)
     = [False, False, False, False, False]
   \<and> snd (checks_for ''10.0.0.1''
          [1700000000, 1700000000.25, 1700000000.5, 1700000000.75, 1700000000.875] Map.empty)
     = [''10.0.0.1'' \<mapsto>
          [1700000000, 1700000000.25, 1700000000.5, 1700000000.75, 1700000000.875]]
   \<and> \<not> (1700000000 :: real) < 1700000001 - 1
   \<and> rate_limited 1700000001 ''10.0.0.1''
        [''10.0.0.1'' \<mapsto>
           [1700000000, 1700000000.25, 1700000000.5, 1700000000.75, 1700000000.875]]
     = (False, [''10.0.0.1'' \<mapsto>
           [1700000000.25, 1700000000.5, 1700000000.75, 1700000000.875, 1700000001]])
   \<and> check_spec 1700000001 ''10.0.0.1''
        [''10.0.0.1'' \<mapsto>
           [1700000000, 1700000000.25, 1700000000.5, 1700000000.75, 1700000000.875]]
     = (True, [''10.0.0.1'' \<mapsto>
           [1700000000, 1700000000.25, 1700000000.5, 1700000000.75, 1700000000.875]])"
  by (simp add: rate_limited_eq check_spec_def recorded_def)

subsection \<open>Independence of addresses\<close>

lemma recorded_checks_for_other:
  "a \<noteq> b \<Longrightarrow> recorded (snd (checks_for b stamps rl)) a = recorded rl a"
proof (induction stamps arbitrary: rl)
  case Nil
  show ?case by simp
next
  case (Cons t stamps)
  obtain r rl1 where s: "rate_limited t b rl = (r, rl1)" by (cases "rate_limited t b rl")
  have "recorded rl1 a = recorded rl a"
    using recorded_after [of t b rl a] Cons.prems s by simp
  moreover have "recorded (snd (checks_for b stamps rl1)) a = recorded rl1 a"
    using Cons.IH [OF Cons.prems] .
  ultimately show ?case using s by (simp add: split_beta)
qed

text \<open>
  Claim C9. Let \<open>a\<close> and \<open>b\<close> be distinct addresses, and let two limiter states record
  the same timestamps for \<open>a\<close>. Whatever checks are then performed for \<open>b\<close> in one of
  them (at any clock readings \<open>stamps\<close>), a following check for \<open>a\<close> gives the same
  decision in both and leaves the same timestamps recorded for \<open>a\<close>: the decision
  depends on the timestamps recorded for \<open>a\<close> and on nothing else.
\<close>

theorem limiter_independence:
  assumes "a \<noteq> b" and "recorded rl' a = recorded rl a"
  shows "fst (rate_limited now a (snd (checks_for b stamps rl'))) = fst (rate_limited now a rl)
       \<and> recorded (snd (rate_limited now a (snd (checks_for b stamps rl')))) a
           = recorded (snd (rate_limited now a rl)) a"
  using assms recorded_checks_for_other [of a b stamps rl']
  by (simp add: decision_eq recorded_after)

theorem limiter_independence_witness:
  "fst (rate_limited 10 ''10.0.0.1''
          (snd (checks_for ''10.0.0.2'' [9, 9, 9, 9, 9, 9, 9]
                  [''10.0.0.1'' \<mapsto> [9, 9, 9, 9]])))
     = fst (rate_limited 10 ''10.0.0.1'' [''10.0.0.1'' \<mapsto> [9, 9, 9, 9]])
   \<and> fst (rate_limited 10 ''10.0.0.1'' [''10.0.0.1'' \<mapsto> [9, 9, 9, 9]]) = False
   \<and> last (fst (checks_for ''10.0.0.2'' [9, 9, 9, 9, 9, 9, 9]
                  [''10.0.0.1'' \<mapsto> [9, 9, 9, 9]])) = True"
proof -
  have d: "''10.0.0.1'' \<noteq> ''10.0.0.2''" by simp
  have r: "recorded [''10.0.0.1'' \<mapsto> [9, 9, 9, 9::real]] ''10.0.0.1''
         = recorded [''10.0.0.1'' \<mapsto> [9, 9, 9, 9]] ''10.0.0.1''" by simp
  show ?thesis
    using limiter_independence [OF d r, of 10 "[9, 9, 9, 9, 9, 9, 9]"]
    by (simp add: rate_limited_eq recorded_def)
qed

subsection \<open>Edge cases of the sliding window\<close>

lemma burst_admitted:
  "length (recorded rl a) + length stamps \<le> 5 \<Longrightarrow>
   (\<forall>x \<in> set (recorded rl a @ stamps). \<forall>y \<in> set (recorded rl a @ stamps). x - y < 1) \<Longrightarrow>
   fst (checks_for a stamps rl) = replicate (length stamps) False
   \<and> recorded (snd (checks_for a stamps rl)) a = recorded rl a @ stamps"
proof (induction stamps arbitrary: rl)
  case Nil
  show ?case by simp
next
  case (Cons t stamps)
  obtain r rl1 where s: "rate_limited t a rl = (r, rl1)" by (cases "rate_limited t a rl")
  have keep: "[ts \<leftarrow> recorded rl a. t - ts < 1] = recorded rl a"
    using Cons.prems(2) by (auto intro: filter_True)
  have short: "\<not> 5 \<le> length (recorded rl a)" using Cons.prems(1) by simp
  have r: "r = False" using decision_eq [of t a rl] s keep short by simp
  have rec1: "recorded rl1 a = recorded rl a @ [t]"
    using recorded_after [of t a rl a] s keep short by simp
  have "fst (checks_for a stamps rl1) = replicate (length stamps) False
      \<and> recorded (snd (checks_for a stamps rl1)) a = recorded rl1 a @ stamps"
  proof (rule Cons.IH)
    show "length (recorded rl1 a) + length stamps \<le> 5" using Cons.prems(1) rec1 by simp
    show "\<forall>x\<in>set (recorded rl1 a @ stamps). \<forall>y\<in>set (recorded rl1 a @ stamps). x - y < 1"
      using Cons.prems(2) rec1 by auto
  qed
  then show ?case using s r rec1 by (simp add: split_beta)
qed

lemma length_recorded_step:
  assumes h: "length (recorded rl b) \<le> 5"
  shows "length (recorded (snd (rate_limited now a rl)) b) \<le> 5"
proof (cases "b = a")
  case True
  have "length (recorded rl a) \<le> 5" using h True by simp
  then have "length [ts \<leftarrow> recorded rl a. now - ts < 1] \<le> 5"
    by (rule order_trans [OF length_filter_le])
  then show ?thesis using True by (simp add: recorded_after)
next
  case False
  then show ?thesis using h by (simp add: recorded_after)
qed

lemma length_recorded_after:
  "length (recorded rl b) \<le> 5 \<Longrightarrow> length (recorded (limiter_after events rl) b) \<le> 5"
proof (induction events arbitrary: rl)
  case Nil
  then show ?case by simp
next
  case (Cons e events)
  obtain now a where e: "e = (now, a)" by (cases e)
  show ?case using Cons.IH [OF length_recorded_step [OF Cons.prems, of now a]] e by simp
qed

lemma slot_reopens:
  assumes len: "length xs \<le> 5" and ne: "xs \<noteq> []" and old: "1 < now - Min (set xs)"
  shows "\<not> 5 \<le> length [ts \<leftarrow> xs. now - ts < (1::real)]"
proof -
  have m: "Min (set xs) \<in> set xs" using ne by (intro Min_in) auto
  have "\<not> now - Min (set xs) < 1" using old by simp
  then have "length [ts \<leftarrow> xs. now - ts < 1] < length xs"
    using m by (intro length_filter_less) auto
  then show ?thesis using len by simp
qed

lemma burst_after_quiet_second:
  assumes quiet: "\<forall>old \<in> set (recorded rl a). \<forall>x \<in> set burst. 1 \<le> x - old"
    and len: "length burst = 5"
    and near: "\<forall>x \<in> set burst. \<forall>y \<in> set burst. x - y < 1"
  shows "fst (checks_for a burst rl) = replicate 5 False
       \<and> recorded (snd (checks_for a burst rl)) a = burst"
proof -
  obtain t later where b: "burst = t # later" using len by (cases burst) auto
  obtain r rl1 where s: "rate_limited t a rl = (r, rl1)" by (cases "rate_limited t a rl")
  have "\<forall>old \<in> set (recorded rl a). \<not> t - old < 1" using quiet b by auto
  then have gone: "[ts \<leftarrow> recorded rl a. t - ts < 1] = []" by (simp add: filter_empty_conv)
  have r: "r = False" using decision_eq [of t a rl] s gone by simp
  have rec1: "recorded rl1 a = [t]" using recorded_after [of t a rl a] s gone by simp
  have "fst (checks_for a later rl1) = replicate (length later) False
      \<and> recorded (snd (checks_for a later rl1)) a = recorded rl1 a @ later"
  proof (rule burst_admitted)
    show "length (recorded rl1 a) + length later \<le> 5" using len b rec1 by simp
    show "\<forall>x\<in>set (recorded rl1 a @ later). \<forall>y\<in>set (recorded rl1 a @ later). x - y < 1"
      using near b rec1 by auto
  qed
  moreover have "length later = 4" using len b by simp
  ultimately show ?thesis using s r rec1 b by (simp add: split_beta numeral_eq_Suc)
qed

text \<open>
  Claim C6. (1) The first check ever performed for an address (no entry for it yet) is
  admitted. (2) When every timestamp recorded for the address is at least one second
  older than the burst (none is recorded for a new address), five checks whose clock
  readings lie within one second of each other are all admitted, and a sixth check less
  than one second after each of the five is rejected. (3) In any limiter state that
  checks have produced from the empty one, once the oldest timestamp recorded for the
  address is more than one second old, the next check for the address is admitted.
\<close>

theorem sliding_window_edge_cases:
  "(rl a = None \<longrightarrow> fst (rate_limited now a rl) = False)
   \<and> ((\<forall>old \<in> set (recorded rl a). \<forall>x \<in> set burst. 1 \<le> x - old)
        \<and> length burst = 5 \<and> (\<forall>x \<in> set burst. \<forall>y \<in> set burst. x - y < 1)
        \<longrightarrow> fst (checks_for a burst rl) = replicate 5 False
          \<and> ((\<forall>x \<in> set burst. sixth - x < 1)
                \<longrightarrow> fst (rate_limited sixth a (snd (checks_for a burst rl))) = True))
   \<and> (recorded (limiter_after events Map.empty) a \<noteq> []
        \<and> 1 < now - Min (set (recorded (limiter_after events Map.empty) a))
        \<longrightarrow> fst (rate_limited now a (limiter_after events Map.empty)) = False)"
proof (intro conjI impI)
  assume "rl a = None"
  then show "fst (rate_limited now a rl) = False"
    by (simp add: decision_eq recorded_def)
next
  assume h: "(\<forall>old \<in> set (recorded rl a). \<forall>x \<in> set burst. 1 \<le> x - old)
        \<and> length burst = 5 \<and> (\<forall>x \<in> set burst. \<forall>y \<in> set burst. x - y < 1)"
  have b: "fst (checks_for a burst rl) = replicate 5 False
         \<and> recorded (snd (checks_for a burst rl)) a = burst"
    by (rule burst_after_quiet_second) (use h in auto)
  show "fst (checks_for a burst rl) = replicate 5 False" using b by simp
  assume six: "\<forall>x \<in> set burst. sixth - x < 1"
  have "[ts \<leftarrow> burst. sixth - ts < 1] = burst" using six by (auto intro: filter_True)
  then show "fst (rate_limited sixth a (snd (checks_for a burst rl))) = True"
    using b h by (simp add: decision_eq)
next
  assume h: "recorded (limiter_after events Map.empty) a \<noteq> []
        \<and> 1 < now - Min (set (recorded (limiter_after events Map.empty) a))"
  have "length (recorded (limiter_after events Map.empty) a) \<le> 5"
    by (rule length_recorded_after) (simp add: recorded_def)
  then have "\<not> 5 \<le> length [ts \<leftarrow> recorded (limiter_after events Map.empty) a. now - ts < 1]"
    using h by (intro slot_reopens) auto
  then show "fst (rate_limited now a (limiter_after events Map.empty)) = False"
    by (simp add: decision_eq)
qed

theorem sliding_window_edge_cases_witness:
  "fst (rate_limited 100 ''10.0.0.1'' Map.empty) = False
   \<and> fst (checks_for ''10.0.0.1'' [100, 100.2, 100.4, 100.6, 100.8] Map.empty)
       = [False, False, False, False, False]
   \<and> fst (rate_limited 100.9 ''10.0.0.1''
            (snd (checks_for ''10.0.0.1'' [100, 100.2, 100.4, 100.6, 100.8] Map.empty))) = True
   \<and> recorded (limiter_after
        [(100, ''10.0.0.1''), (100.2, ''10.0.0.1''), (100.4, ''10.0.0.1''),
         (100.6, ''10.0.0.1''), (100.8, ''10.0.0.1''), (100.9, ''10.0.0.1'')] Map.empty)
        ''10.0.0.1'' = [100, 100.2, 100.4, 100.6, 100.8]
   \<and> fst (rate_limited 101.1 ''10.0.0.1'' (limiter_after
        [(100, ''10.0.0.1''), (100.2, ''10.0.0.1''), (100.4, ''10.0.0.1''),
         (100.6, ''10.0.0.1''), (100.8, ''10.0.0.1''), (100.9, ''10.0.0.1'')] Map.empty))
       = False"
proof -
  let ?a = "''10.0.0.1''"
  let ?burst = "[100, 100.2, 100.4, 100.6, 100.8] :: real list"
  let ?events = "[(100, ?a), (100.2, ?a), (100.4, ?a), (100.6, ?a), (100.8, ?a), (100.9, ?a)]
                   :: (real \<times> string) list"
  note t = sliding_window_edge_cases [of Map.empty ?a _ ?burst "100.9" ?events]
  have new: "(Map.empty :: limiter) ?a = None" by simp
  have within: "(\<forall>old \<in> set (recorded Map.empty ?a). \<forall>x \<in> set ?burst. 1 \<le> x - old)
                \<and> length ?burst = 5
                \<and> (\<forall>x \<in> set ?burst. \<forall>y \<in> set ?burst. x - y < 1)"
    by (simp add: recorded_def)
  have sixth: "\<forall>x \<in> set ?burst. 100.9 - x < 1" by simp
  have r: "recorded (limiter_after ?events Map.empty) ?a = ?burst"
    by (simp add: rate_limited_eq recorded_def)
  have aged: "recorded (limiter_after ?events Map.empty) ?a \<noteq> []
              \<and> 1 < 101.1 - Min (set (recorded (limiter_after ?events Map.empty) ?a))"
    unfolding r by simp
  have c1: "fst (rate_limited 100 ?a Map.empty) = False"
    using t [of 100, THEN conjunct1, THEN mp, OF new] .
  have c2: "fst (checks_for ?a ?burst Map.empty) = replicate 5 False
          \<and> ((\<forall>x \<in> set ?burst. 100.9 - x < 1)
              \<longrightarrow> fst (rate_limited 100.9 ?a (snd (checks_for ?a ?burst Map.empty))) = True)"
    using t [of 100, THEN conjunct2, THEN conjunct1, THEN mp, OF within] .
  have c3: "fst (rate_limited 100.9 ?a (snd (checks_for ?a ?burst Map.empty))) = True"
    using c2 [THEN conjunct2, THEN mp, OF sixth] .
  have c4: "fst (rate_limited 101.1 ?a (limiter_after ?events Map.empty)) = False"
    using t [of "101.1", THEN conjunct2, THEN conjunct2, THEN mp, OF aged] .
  have five: "replicate 5 False = [False, False, False, False, False]"
    by (simp add: numeral_eq_Suc)
  show ?thesis
    using c1 c2 [THEN conjunct1] c3 r c4 unfolding five by (intro conjI)
qed

section \<open>Properties of the connection handler\<close>

lemma counter_update_eq:
  "counter_update m k h = (if counter_mode m then h(k \<mapsto> hits_get h k + 1) else h)"
  by (cases m)
     (simp_all add: counter_update_def counter_mode_def counter_code_def run_def start_def
        step_def)

lemma first_line_nonempty: "split_ws (first_line request) \<noteq> [] \<Longrightarrow> request \<noteq> []"
  by (auto simp: split_ws_def)

lemma handle_client_malformed:
  "request \<noteq> [] \<Longrightarrow> length (split_ws (first_line request)) < 2 \<Longrightarrow>
   handle_client e s now ip request
     = (Some (send_response 400 ''text/plain'' (Bytes (str ''Bad Request''))), s)"
  by (simp add: handle_client_def)

lemma handle_client_parsed:
  assumes "split_ws (first_line request) = method # target # rest"
  shows "handle_client e s now ip request =
     (let limited = (server_mode e = RateLimited \<and> fst (rate_limited now ip (rate_limits s)));
          s1 = (if server_mode e = RateLimited
                then s\<lparr>rate_limits := snd (rate_limited now ip (rate_limits s))\<rparr> else s);
          file_path = resolve e (unquote e target);
          counts = (if counter_mode (server_mode e)
                    then counter_update (server_mode e) file_path (file_hits s1)
                    else file_hits s1)
      in if limited
         then (Some (send_response 429 ''text/plain'' (Bytes (str ''Too Many Requests''))), s1)
         else if method \<noteq> str ''GET''
         then (Some (send_response 405 ''text/plain'' (Bytes (str ''Method Not Allowed''))), s1)
         else if \<not> starts_with_base e file_path
         then (Some (send_response 403 ''text/html'' forbidden_body), s1)
         else if fs e file_path = None
         then (Some (send_response 404 ''text/html'' not_found_body), s1)
         else (Some (answer_of (serve_resource e counts file_path (unquote e target))),
               s1\<lparr>file_hits := counts\<rparr>))"
proof -
  have ne: "request \<noteq> []" using assms first_line_nonempty [of request] by simp
  show ?thesis
    using ne assms
    by (cases "server_mode e")
       (simp_all add: handle_client_def Let_def split_beta counter_mode_def os_path_exists_def)
qed

lemma two_tokens:
  "2 \<le> length toks \<Longrightarrow> toks = toks ! 0 # toks ! 1 # drop 2 toks"
  by (cases toks; cases "tl toks") auto

lemma serve_resource_status:
  "status (answer_of (serve_resource e h p u)) = 200
   \<or> status (answer_of (serve_resource e h p u)) = 404
   \<or> status (answer_of (serve_resource e h p u)) = 500"
  by (simp add: serve_resource_def answer_of_def send_response_def Let_def split: sum.split)

text \<open>
  The request line is split at every whitespace character of \<^verbatim>\<open>str.split\<close>, the
  no-break space U+00A0 included: a request whose method and path it separates is served
  and counted, a line that holds one token beside it is malformed, and a request with
  two tokens is rate-checked.
\<close>

lemma no_break_space_separates_tokens:
  "map_option status (fst (handle_client (example_env ThreadSafe) idle 100 ''10.0.0.1''
      (str ''GET'' @ [0xA0] @ str ''/index.html HTTP/1.1''))) = Some 200
   \<and> file_hits (snd (handle_client (example_env ThreadSafe) idle 100 ''10.0.0.1''
        (str ''GET'' @ [0xA0] @ str ''/index.html HTTP/1.1''))) (str ''/srv/www/index.html'')
       = Some 1
   \<and> map_option status (fst (handle_client (example_env RateLimited) busy 100 ''10.0.0.1''
      ([0xA0] @ str '' x''))) = Some 400
   \<and> map_option status (fst (handle_client (example_env RateLimited) busy 100 ''10.0.0.1''
      (str ''POST'' @ [0xA0] @ str ''/index.html''))) = Some 429"
  by code_simp

text \<open>
  Claim C3, as the code has it. The handler (run alone) runs the counter code of its
  mode, and so changes the hit counter store, in exactly one case: the mode is Race,
  ThreadSafe or RateLimited, the request line has two tokens or more and the method GET,
  the rate check (RateLimited mode) did not reject, the resolved path passed the test
  against the served root, and the path exists. The counter code then runs on the
  counter of the resolved path, whether the path is a directory or a file.
\<close>

theorem counter_updated_for_every_existing_target:
  fixes e s now ip request
  defines "toks \<equiv> split_ws (first_line request)"
  defines "file_path \<equiv> resolve e (unquote e (toks ! 1))"
  shows "file_hits (snd (handle_client e s now ip request)) =
     (if counter_mode (server_mode e) \<and> 2 \<le> length toks \<and> toks ! 0 = str ''GET''
         \<and> \<not> (server_mode e = RateLimited \<and> fst (rate_limited now ip (rate_limits s)))
         \<and> starts_with_base e file_path \<and> os_path_exists e file_path
      then counter_update (server_mode e) file_path (file_hits s)
      else file_hits s)"
proof (cases "2 \<le> length toks")
  case True
  then have p: "split_ws (first_line request) = toks ! 0 # toks ! 1 # drop 2 toks"
    using two_tokens [of toks] by (simp add: toks_def)
  show ?thesis
    using True
    by (auto simp: handle_client_parsed [OF p] Let_def file_path_def os_path_exists_def)
next
  case False
  then have "length (split_ws (first_line request)) < 2" by (simp add: toks_def)
  then have "snd (handle_client e s now ip request) = s"
    by (cases "request = []") (simp_all add: handle_client_def)
  then show ?thesis using False by simp
qed

text \<open>
  Claim C3, as stated, fails: in each counter mode a request for the directory
  \<^verbatim>\<open>/docs\<close> is answered with the directory listing, and the counter of the directory
  has gone from absent to 1.
\<close>

theorem directory_request_counted_counterexample:
  "os_path_isdir (example_env ThreadSafe) (str ''/srv/www/docs'')
   \<and> fst (handle_client (example_env ThreadSafe) idle 100 ''10.0.0.1'' (request_for ''GET'' ''/docs''))
       = Some (send_response 200 ''text/html'' (Listing (str ''/docs'') (Some [])))
   \<and> file_hits idle (str ''/srv/www/docs'') = None
   \<and> file_hits (snd (handle_client (example_env Race) idle 100 ''10.0.0.1''
                        (request_for ''GET'' ''/docs''))) (str ''/srv/www/docs'') = Some 1
   \<and> file_hits (snd (handle_client (example_env ThreadSafe) idle 100 ''10.0.0.1''
                        (request_for ''GET'' ''/docs''))) (str ''/srv/www/docs'') = Some 1
   \<and> file_hits (snd (handle_client (example_env RateLimited) idle 100 ''10.0.0.1''
                        (request_for ''GET'' ''/docs''))) (str ''/srv/www/docs'') = Some 1"
  by code_simp

text \<open>
  Claim C4. In RateLimited mode, when the rate check of a request (one whose request
  line has at least two tokens, so that the check is reached) rejects it, the response
  is 429, the hit counter store is what it was, and no path is resolved: the response
  and the state left behind are the same for every served root, working directory and
  file system.
\<close>

theorem rejected_request_touches_nothing:
  assumes "server_mode e = RateLimited" and "server_mode e' = RateLimited"
    and "2 \<le> length (split_ws (first_line request))"
    and "fst (rate_limited now ip (rate_limits s))"
  shows "fst (handle_client e s now ip request)
           = Some (send_response 429 ''text/plain'' (Bytes (str ''Too Many Requests'')))
       \<and> file_hits (snd (handle_client e s now ip request)) = file_hits s
       \<and> handle_client e' s now ip request = handle_client e s now ip request"
proof -
  let ?toks = "split_ws (first_line request)"
  have p: "?toks = ?toks ! 0 # ?toks ! 1 # drop 2 ?toks"
    using two_tokens [OF assms(3)] .
  show ?thesis
    using assms(1,2,4)
    by (simp add: handle_client_parsed [OF p] Let_def)
qed

theorem rejected_request_touches_nothing_witness:
  "fst (handle_client (example_env RateLimited) busy 100 ''10.0.0.1''
          (request_for ''GET'' ''/index.html''))
     = Some (send_response 429 ''text/plain'' (Bytes (str ''Too Many Requests'')))
   \<and> file_hits (snd (handle_client (example_env RateLimited) busy 100 ''10.0.0.1''
                        (request_for ''GET'' ''/index.html''))) = file_hits busy
   \<and> handle_client
        \<lparr>server_mode = RateLimited, base_dir = str ''/tmp'', cwd = str ''/'', fs = (\<lambda>p. None),
         unquote = (\<lambda>s. s), lower = ascii_lower\<rparr>
        busy 100 ''10.0.0.1'' (request_for ''GET'' ''/index.html'')
     = handle_client (example_env RateLimited) busy 100 ''10.0.0.1''
         (request_for ''GET'' ''/index.html'')"
proof -
  have m: "server_mode (example_env RateLimited) = RateLimited"
    by (simp add: example_env_def)
  have m': "server_mode \<lparr>server_mode = RateLimited, base_dir = str ''/tmp'', cwd = str ''/'',
                          fs = (\<lambda>p. None), unquote = (\<lambda>s. s), lower = ascii_lower\<rparr>
              = RateLimited"
    by simp
  have t: "2 \<le> length (split_ws (first_line (request_for ''GET'' ''/index.html'')))"
    by (simp add: request_for_def crlf_def split_ws_def is_space_def str_def)
  have r: "fst (rate_limited 100 ''10.0.0.1'' (rate_limits busy))"
    by (simp add: busy_def rate_limited_eq recorded_def)
  show ?thesis
    using rejected_request_touches_nothing [OF m m' t r] .
qed

text \<open>
  Claim C10. In RateLimited mode the rate check comes before the method check: a
  request that the rate check rejects is answered 429 whatever its method, and a request
  answered 405 has passed the rate check (and has a method other than GET).
\<close>

theorem rate_check_precedes_method_check:
  assumes "server_mode e = RateLimited"
  shows "(2 \<le> length (split_ws (first_line request))
            \<and> fst (rate_limited now ip (rate_limits s))
          \<longrightarrow> map_option status (fst (handle_client e s now ip request)) = Some 429)
       \<and> (map_option status (fst (handle_client e s now ip request)) = Some 405
          \<longrightarrow> \<not> fst (rate_limited now ip (rate_limits s))
              \<and> 2 \<le> length (split_ws (first_line request))
              \<and> split_ws (first_line request) ! 0 \<noteq> str ''GET'')"
proof (cases "2 \<le> length (split_ws (first_line request))")
  case True
  let ?toks = "split_ws (first_line request)"
  have p: "?toks = ?toks ! 0 # ?toks ! 1 # drop 2 ?toks"
    using two_tokens [OF True] .
  have other: "status (answer_of (serve_resource e h q u)) \<noteq> 405" for h q u
    using serve_resource_status [of e h q u] by auto
  show ?thesis
    using True assms other
    by (auto simp: handle_client_parsed [OF p] Let_def send_response_def)
next
  case False
  then have "handle_client e s now ip request = (None, s)
      \<or> handle_client e s now ip request
           = (Some (send_response 400 ''text/plain'' (Bytes (str ''Bad Request''))), s)"
    by (cases "request = []") (simp_all add: handle_client_def)
  then show ?thesis using False by (auto simp: send_response_def)
qed

theorem rate_check_precedes_method_check_witness:
  "split_ws (first_line (request_for ''POST'' ''/index.html'')) ! 0 = str ''POST''
   \<and> map_option status (fst (handle_client (example_env RateLimited) busy 100 ''10.0.0.1''
                               (request_for ''POST'' ''/index.html''))) = Some 429
   \<and> map_option status (fst (handle_client (example_env RateLimited) idle 100 ''10.0.0.1''
                               (request_for ''POST'' ''/index.html''))) = Some 405
   \<and> \<not> fst (rate_limited 100 ''10.0.0.1'' (rate_limits idle))"
proof -
  have m: "server_mode (example_env RateLimited) = RateLimited"
    by (simp add: example_env_def)
  note t = rate_check_precedes_method_check [OF m, of "request_for ''POST'' ''/index.html''" 100
      "''10.0.0.1''"]
  have toks: "split_ws (first_line (request_for ''POST'' ''/index.html''))
                = [str ''POST'', str ''/index.html'', str ''HTTP/1.1'']"
    by (simp add: request_for_def crlf_def split_ws_def is_space_def str_def)
  have post: "str ''POST'' \<noteq> str ''GET''" by (simp add: str_def)
  have r: "2 \<le> length (split_ws (first_line (request_for ''POST'' ''/index.html'')))
           \<and> fst (rate_limited 100 ''10.0.0.1'' (rate_limits busy))"
    by (simp add: toks busy_def rate_limited_eq recorded_def)
  have a: "map_option status (fst (handle_client (example_env RateLimited) busy 100 ''10.0.0.1''
                               (request_for ''POST'' ''/index.html''))) = Some 429"
    using t [of busy, THEN conjunct1, THEN mp, OF r] .
  have b: "map_option status (fst (handle_client (example_env RateLimited) idle 100 ''10.0.0.1''
                               (request_for ''POST'' ''/index.html''))) = Some 405"
    by (simp add: handle_client_parsed [OF toks] Let_def m idle_def rate_limited_eq
          recorded_def send_response_def post)
  have c: "\<not> fst (rate_limited 100 ''10.0.0.1'' (rate_limits idle))"
    using t [of idle, THEN conjunct2, THEN mp, OF b] by simp
  show ?thesis using toks a b c by simp
qed

lemma serve_resource_directory:
  "os_path_isdir e p \<Longrightarrow>
   answer_of (serve_resource e h p u) =
     (if listing_encodable e p u
      then send_response 200 ''text/html'' (generate_directory_listing e h p u)
      else send_response 500 ''text/plain'' (InternalServerError EncodeFailed))"
  by (simp add: serve_resource_def answer_of_def Let_def)

lemma serve_resource_file:
  "fs e p = Some (RegularFile r) \<Longrightarrow>
   answer_of (serve_resource e h p u) =
     (if lower e (path_suffix p) \<notin> set supported_extensions
      then send_response 404 ''text/html'' (Bytes (str ''File type not supported''))
      else (case r of
              Inr content \<Rightarrow> send_response 200 (get_content_type e p) (Bytes content)
            | Inl msg \<Rightarrow> send_response 500 ''text/plain'' (InternalServerError (OpenFailed msg))))"
  by (simp add: serve_resource_def answer_of_def os_path_isdir_def read_file_def
        split: sum.split)

text \<open>
  Claim C8, as the code has it. In every mode every non-empty request gets exactly one
  response, the checks applying in the order of the handler, each to the requests that
  no earlier check has answered. A request line with fewer than two tokens yields 400.
  In RateLimited mode a request that the rate check rejects yields 429, whatever its
  method; the others reach the method check, where a method other than GET yields 405.
  A GET request whose resolved path fails the test against the served root yields 403;
  the others reach their target: a path that does not exist yields 404 (not found); an
  existing file with an unsupported extension yields 404 with the body
  "File type not supported", which differs from the not-found body; an internal fault
  (the page of a directory listing cannot be encoded, or reading a supported file
  raises) yields 500; every other outcome (a directory listing, a supported file read)
  yields 200.
\<close>

theorem request_outcomes_map_to_statuses:
  fixes e s now ip request
  defines "toks \<equiv> split_ws (first_line request)"
  defines "url_path \<equiv> unquote e (toks ! 1)"
  defines "file_path \<equiv> resolve e url_path"
  defines "answer \<equiv> fst (handle_client e s now ip request)"
  defines "rejected \<equiv> server_mode e = RateLimited \<and> fst (rate_limited now ip (rate_limits s))"
  defines "reaches_method_check \<equiv> 2 \<le> length toks \<and> \<not> rejected"
  defines "reaches_target \<equiv>
             reaches_method_check \<and> toks ! 0 = str ''GET'' \<and> starts_with_base e file_path"
  shows "(request \<noteq> [] \<longrightarrow> answer \<noteq> None)
       \<and> (request \<noteq> [] \<and> length toks < 2 \<longrightarrow> map_option status answer = Some 400)
       \<and> (2 \<le> length toks \<and> rejected \<longrightarrow> map_option status answer = Some 429)
       \<and> (reaches_method_check \<and> toks ! 0 \<noteq> str ''GET''
            \<longrightarrow> map_option status answer = Some 405)
       \<and> (reaches_method_check \<and> toks ! 0 = str ''GET'' \<and> \<not> starts_with_base e file_path
            \<longrightarrow> map_option status answer = Some 403)
       \<and> (reaches_target \<and> fs e file_path = None
            \<longrightarrow> answer = Some (send_response 404 ''text/html'' not_found_body))
       \<and> (reaches_target \<and> fs e file_path = Some (RegularFile r)
              \<and> lower e (path_suffix file_path) \<notin> set supported_extensions
            \<longrightarrow> answer = Some (send_response 404 ''text/html''
                                 (Bytes (str ''File type not supported'')))
               \<and> Bytes (str ''File type not supported'') \<noteq> not_found_body)
       \<and> (reaches_target
              \<and> (os_path_isdir e file_path \<and> \<not> listing_encodable e file_path url_path
                  \<or> fs e file_path = Some (RegularFile (Inl msg))
                     \<and> lower e (path_suffix file_path) \<in> set supported_extensions)
            \<longrightarrow> map_option status answer = Some 500)
       \<and> (reaches_target
              \<and> (os_path_isdir e file_path \<and> listing_encodable e file_path url_path
                  \<or> fs e file_path = Some (RegularFile (Inr content))
                     \<and> lower e (path_suffix file_path) \<in> set supported_extensions)
            \<longrightarrow> map_option status answer = Some 200)"
proof (cases "2 \<le> length toks")
  case True
  then have p: "split_ws (first_line request) = toks ! 0 # toks ! 1 # drop 2 toks"
    using two_tokens [of toks] by (simp add: toks_def)
  have ne: "request \<noteq> []" using p first_line_nonempty [of request] by simp
  have dir: "os_path_isdir e file_path \<Longrightarrow> fs e file_path \<noteq> None"
    by (auto simp: os_path_isdir_def split: option.splits)
  have differ: "Bytes (str ''File type not supported'') \<noteq> not_found_body"
    by (simp add: not_found_body_def str_def)
  show ?thesis
    using True ne dir differ
    unfolding answer_def reaches_target_def reaches_method_check_def rejected_def
      file_path_def url_path_def
    by (auto simp: handle_client_parsed [OF p] Let_def
          serve_resource_directory serve_resource_file send_response_def)
next
  case False
  then have short: "length (split_ws (first_line request)) < 2" by (simp add: toks_def)
  have "request \<noteq> [] \<Longrightarrow>
        answer = Some (send_response 400 ''text/plain'' (Bytes (str ''Bad Request'')))"
    unfolding answer_def using handle_client_malformed [OF _ short] by simp
  then show ?thesis
    unfolding reaches_target_def reaches_method_check_def
    using False by (auto simp: send_response_def)
qed

text \<open>
  Claim C8, as stated, fails in RateLimited mode: a POST request from an address that has
  just been admitted five times is answered 429, not 405.
\<close>

theorem unsupported_method_rate_limited_counterexample:
  "split_ws (first_line (request_for ''POST'' ''/index.html'')) ! 0 = str ''POST''
   \<and> str ''POST'' \<noteq> str ''GET''
   \<and> map_option status (fst (handle_client (example_env RateLimited) busy 100 ''10.0.0.1''
                               (request_for ''POST'' ''/index.html''))) = Some 429"
proof -
  have toks: "split_ws (first_line (request_for ''POST'' ''/index.html''))
                = [str ''POST'', str ''/index.html'', str ''HTTP/1.1'']"
    by (simp add: request_for_def crlf_def split_ws_def is_space_def str_def)
  have post: "str ''POST'' \<noteq> str ''GET''" by (simp add: str_def)
  show ?thesis
    using post
    by (simp add: handle_client_parsed [OF toks] toks Let_def example_env_def busy_def
          rate_limited_eq recorded_def send_response_def)
qed

theorem request_outcomes_map_to_statuses_witness:
  "map_option status (fst (handle_client (example_env ThreadSafe) idle 100 ''10.0.0.1'' (str ''HELLO'' @ crlf))) = Some 400
   \<and> map_option status (fst (handle_client (example_env RateLimited) busy 100 ''10.0.0.1'' (request_for ''POST'' ''/index.html''))) = Some 429
   \<and> map_option status (fst (handle_client (example_env ThreadSafe) idle 100 ''10.0.0.1'' (request_for ''POST'' ''/index.html''))) = Some 405
   \<and> map_option status (fst (handle_client (example_env ThreadSafe) idle 100 ''10.0.0.1'' (request_for ''GET'' ''/../../etc/passwd''))) = Some 403
   \<and> fst (handle_client (example_env ThreadSafe) idle 100 ''10.0.0.1'' (request_for ''GET'' ''/missing.html'')) = Some (send_response 404 ''text/html'' not_found_body)
   \<and> fst (handle_client (example_env ThreadSafe) idle 100 ''10.0.0.1'' (request_for ''GET'' ''/notes.txt'')) = Some (send_response 404 ''text/html'' (Bytes (str ''File type not supported'')))
   \<and> map_option status (fst (handle_client (example_env ThreadSafe) idle 100 ''10.0.0.1'' (request_for ''GET'' ''/locked.pdf''))) = Some 500
   \<and> map_option status (fst (handle_client (example_env ThreadSafe) idle 100 ''10.0.0.1'' (request_for ''GET'' ''/raw''))) = Some 500
   \<and> map_option status (fst (handle_client (example_env ThreadSafe) idle 100 ''10.0.0.1'' (request_for ''GET'' ''/index.html''))) = Some 200
   \<and> map_option status (fst (handle_client (example_env ThreadSafe) idle 100 ''10.0.0.1'' (request_for ''GET'' ''/docs''))) = Some 200"
proof -
  let ?e = "example_env ThreadSafe"
  let ?r = "example_env RateLimited"
  let ?bad = "str ''HELLO'' @ crlf"
  note t = request_outcomes_map_to_statuses
    [where e = ?e and s = idle and now = 100 and ip = "''10.0.0.1''"]
  note u = request_outcomes_map_to_statuses
    [where e = ?r and s = busy and now = 100 and ip = "''10.0.0.1''"]
  have h400: "?bad \<noteq> [] \<and> length (split_ws (first_line ?bad)) < 2"
    by code_simp
  have h429: "2 \<le> length (split_ws (first_line (request_for ''POST'' ''/index.html'')))
      \<and> (server_mode ?r = RateLimited \<and> fst (rate_limited 100 ''10.0.0.1'' (rate_limits busy)))"
    by code_simp
  have h405: "(2 \<le> length (split_ws (first_line (request_for ''POST'' ''/index.html'')))
       \<and> \<not> (server_mode ?e = RateLimited \<and> fst (rate_limited 100 ''10.0.0.1'' (rate_limits idle))))
      \<and> split_ws (first_line (request_for ''POST'' ''/index.html'')) ! 0 \<noteq> str ''GET''"
    by code_simp
  have h403: "(2 \<le> length (split_ws (first_line (request_for ''GET'' ''/../../etc/passwd'')))
       \<and> \<not> (server_mode ?e = RateLimited \<and> fst (rate_limited 100 ''10.0.0.1'' (rate_limits idle))))
      \<and> split_ws (first_line (request_for ''GET'' ''/../../etc/passwd'')) ! 0 = str ''GET''
      \<and> \<not> starts_with_base ?e (resolve ?e (unquote ?e (split_ws (first_line (request_for ''GET'' ''/../../etc/passwd'')) ! 1)))"
    by code_simp
  have h404: "((2 \<le> length (split_ws (first_line (request_for ''GET'' ''/missing.html'')))
       \<and> \<not> (server_mode ?e = RateLimited \<and> fst (rate_limited 100 ''10.0.0.1'' (rate_limits idle))))
      \<and> split_ws (first_line (request_for ''GET'' ''/missing.html'')) ! 0 = str ''GET''
      \<and> starts_with_base ?e (resolve ?e (unquote ?e (split_ws (first_line (request_for ''GET'' ''/missing.html'')) ! 1))))
     \<and> fs ?e (resolve ?e (unquote ?e (split_ws (first_line (request_for ''GET'' ''/missing.html'')) ! 1))) = None"
    by code_simp
  have hext: "((2 \<le> length (split_ws (first_line (request_for ''GET'' ''/notes.txt'')))
       \<and> \<not> (server_mode ?e = RateLimited \<and> fst (rate_limited 100 ''10.0.0.1'' (rate_limits idle))))
      \<and> split_ws (first_line (request_for ''GET'' ''/notes.txt'')) ! 0 = str ''GET''
      \<and> starts_with_base ?e (resolve ?e (unquote ?e (split_ws (first_line (request_for ''GET'' ''/notes.txt'')) ! 1))))
     \<and> fs ?e (resolve ?e (unquote ?e (split_ws (first_line (request_for ''GET'' ''/notes.txt'')) ! 1))) = Some (RegularFile (Inr (str ''notes'')))
     \<and> lower ?e (path_suffix (resolve ?e (unquote ?e (split_ws (first_line (request_for ''GET'' ''/notes.txt'')) ! 1)))) \<notin> set supported_extensions"
    by code_simp
  have hread: "((2 \<le> length (split_ws (first_line (request_for ''GET'' ''/locked.pdf'')))
       \<and> \<not> (server_mode ?e = RateLimited \<and> fst (rate_limited 100 ''10.0.0.1'' (rate_limits idle))))
      \<and> split_ws (first_line (request_for ''GET'' ''/locked.pdf'')) ! 0 = str ''GET''
      \<and> starts_with_base ?e (resolve ?e (unquote ?e (split_ws (first_line (request_for ''GET'' ''/locked.pdf'')) ! 1))))
     \<and> (os_path_isdir ?e (resolve ?e (unquote ?e (split_ws (first_line (request_for ''GET'' ''/locked.pdf'')) ! 1))) \<and> \<not> listing_encodable ?e (resolve ?e (unquote ?e (split_ws (first_line (request_for ''GET'' ''/locked.pdf'')) ! 1))) (unquote ?e (split_ws (first_line (request_for ''GET'' ''/locked.pdf'')) ! 1))
        \<or> fs ?e (resolve ?e (unquote ?e (split_ws (first_line (request_for ''GET'' ''/locked.pdf'')) ! 1))) = Some (RegularFile (Inl (str ''Permission denied'')))
          \<and> lower ?e (path_suffix (resolve ?e (unquote ?e (split_ws (first_line (request_for ''GET'' ''/locked.pdf'')) ! 1)))) \<in> set supported_extensions)"
    by code_simp
  have hraw: "((2 \<le> length (split_ws (first_line (request_for ''GET'' ''/raw'')))
       \<and> \<not> (server_mode ?e = RateLimited \<and> fst (rate_limited 100 ''10.0.0.1'' (rate_limits idle))))
      \<and> split_ws (first_line (request_for ''GET'' ''/raw'')) ! 0 = str ''GET''
      \<and> starts_with_base ?e (resolve ?e (unquote ?e (split_ws (first_line (request_for ''GET'' ''/raw'')) ! 1))))
     \<and> (os_path_isdir ?e (resolve ?e (unquote ?e (split_ws (first_line (request_for ''GET'' ''/raw'')) ! 1))) \<and> \<not> listing_encodable ?e (resolve ?e (unquote ?e (split_ws (first_line (request_for ''GET'' ''/raw'')) ! 1))) (unquote ?e (split_ws (first_line (request_for ''GET'' ''/raw'')) ! 1))
        \<or> fs ?e (resolve ?e (unquote ?e (split_ws (first_line (request_for ''GET'' ''/raw'')) ! 1))) = Some (RegularFile (Inl []))
          \<and> lower ?e (path_suffix (resolve ?e (unquote ?e (split_ws (first_line (request_for ''GET'' ''/raw'')) ! 1)))) \<in> set supported_extensions)"
    by code_simp
  have hfile: "((2 \<le> length (split_ws (first_line (request_for ''GET'' ''/index.html'')))
       \<and> \<not> (server_mode ?e = RateLimited \<and> fst (rate_limited 100 ''10.0.0.1'' (rate_limits idle))))
      \<and> split_ws (first_line (request_for ''GET'' ''/index.html'')) ! 0 = str ''GET''
      \<and> starts_with_base ?e (resolve ?e (unquote ?e (split_ws (first_line (request_for ''GET'' ''/index.html'')) ! 1))))
     \<and> (os_path_isdir ?e (resolve ?e (unquote ?e (split_ws (first_line (request_for ''GET'' ''/index.html'')) ! 1))) \<and> listing_encodable ?e (resolve ?e (unquote ?e (split_ws (first_line (request_for ''GET'' ''/index.html'')) ! 1))) (unquote ?e (split_ws (first_line (request_for ''GET'' ''/index.html'')) ! 1))
        \<or> fs ?e (resolve ?e (unquote ?e (split_ws (first_line (request_for ''GET'' ''/index.html'')) ! 1))) = Some (RegularFile (Inr (str ''<html></html>'')))
          \<and> lower ?e (path_suffix (resolve ?e (unquote ?e (split_ws (first_line (request_for ''GET'' ''/index.html'')) ! 1)))) \<in> set supported_extensions)"
    by code_simp
  have hdir: "((2 \<le> length (split_ws (first_line (request_for ''GET'' ''/docs'')))
       \<and> \<not> (server_mode ?e = RateLimited \<and> fst (rate_limited 100 ''10.0.0.1'' (rate_limits idle))))
      \<and> split_ws (first_line (request_for ''GET'' ''/docs'')) ! 0 = str ''GET''
      \<and> starts_with_base ?e (resolve ?e (unquote ?e (split_ws (first_line (request_for ''GET'' ''/docs'')) ! 1))))
     \<and> (os_path_isdir ?e (resolve ?e (unquote ?e (split_ws (first_line (request_for ''GET'' ''/docs'')) ! 1))) \<and> listing_encodable ?e (resolve ?e (unquote ?e (split_ws (first_line (request_for ''GET'' ''/docs'')) ! 1))) (unquote ?e (split_ws (first_line (request_for ''GET'' ''/docs'')) ! 1))
        \<or> fs ?e (resolve ?e (unquote ?e (split_ws (first_line (request_for ''GET'' ''/docs'')) ! 1))) = Some (RegularFile (Inr []))
          \<and> lower ?e (path_suffix (resolve ?e (unquote ?e (split_ws (first_line (request_for ''GET'' ''/docs'')) ! 1)))) \<in> set supported_extensions)"
    by code_simp
  have c_h400: "map_option status (fst (handle_client ?e idle 100 ''10.0.0.1'' ?bad)) = Some 400"
    using t [THEN conjunct2, THEN conjunct1, THEN mp, OF h400] .
  have c_h429: "map_option status (fst (handle_client ?r busy 100 ''10.0.0.1'' (request_for ''POST'' ''/index.html''))) = Some 429"
    using u [THEN conjunct2, THEN conjunct2, THEN conjunct1, THEN mp, OF h429] .
  have c_h405: "map_option status (fst (handle_client ?e idle 100 ''10.0.0.1'' (request_for ''POST'' ''/index.html''))) = Some 405"
    using t [THEN conjunct2, THEN conjunct2, THEN conjunct2, THEN conjunct1, THEN mp, OF h405] .
  have c_h403: "map_option status (fst (handle_client ?e idle 100 ''10.0.0.1'' (request_for ''GET'' ''/../../etc/passwd''))) = Some 403"
    using t [THEN conjunct2, THEN conjunct2, THEN conjunct2, THEN conjunct2, THEN conjunct1, THEN mp, OF h403] .
  have c_h404: "fst (handle_client ?e idle 100 ''10.0.0.1'' (request_for ''GET'' ''/missing.html'')) = Some (send_response 404 ''text/html'' not_found_body)"
    using t [THEN conjunct2, THEN conjunct2, THEN conjunct2, THEN conjunct2, THEN conjunct2, THEN conjunct1, THEN mp, OF h404] .
  have c_hext: "fst (handle_client ?e idle 100 ''10.0.0.1'' (request_for ''GET'' ''/notes.txt'')) = Some (send_response 404 ''text/html'' (Bytes (str ''File type not supported'')))"
    using t [THEN conjunct2, THEN conjunct2, THEN conjunct2, THEN conjunct2, THEN conjunct2, THEN conjunct2, THEN conjunct1, THEN mp, THEN conjunct1, OF hext] .
  have c_hread: "map_option status (fst (handle_client ?e idle 100 ''10.0.0.1'' (request_for ''GET'' ''/locked.pdf''))) = Some 500"
    using t [THEN conjunct2, THEN conjunct2, THEN conjunct2, THEN conjunct2, THEN conjunct2, THEN conjunct2, THEN conjunct2, THEN conjunct1, THEN mp, OF hread] .
  have c_hraw: "map_option status (fst (handle_client ?e idle 100 ''10.0.0.1'' (request_for ''GET'' ''/raw''))) = Some 500"
    using t [THEN conjunct2, THEN conjunct2, THEN conjunct2, THEN conjunct2, THEN conjunct2, THEN conjunct2, THEN conjunct2, THEN conjunct1, THEN mp, OF hraw] .
  have c_hfile: "map_option status (fst (handle_client ?e idle 100 ''10.0.0.1'' (request_for ''GET'' ''/index.html''))) = Some 200"
    using t [THEN conjunct2, THEN conjunct2, THEN conjunct2, THEN conjunct2, THEN conjunct2, THEN conjunct2, THEN conjunct2, THEN conjunct2, THEN mp, OF hfile] .
  have c_hdir: "map_option status (fst (handle_client ?e idle 100 ''10.0.0.1'' (request_for ''GET'' ''/docs''))) = Some 200"
    using t [THEN conjunct2, THEN conjunct2, THEN conjunct2, THEN conjunct2, THEN conjunct2, THEN conjunct2, THEN conjunct2, THEN conjunct2, THEN mp, OF hdir] .
  show ?thesis
    using c_h400 c_h429 c_h405 c_h403 c_h404 c_hext c_hread c_hraw c_hfile c_hdir
    by (intro conjI)
qed

subsection \<open>Path traversal\<close>

text \<open>
  The guard of the 403 response compares the two absolute paths as strings. A request
  that the rate check has not rejected, with method GET, is answered 403 exactly when
  the string test fails.
\<close>

lemma forbidden_iff_prefix_test_fails:
  assumes "split_ws (first_line request) = str ''GET'' # target # rest"
    and "\<not> (server_mode e = RateLimited \<and> fst (rate_limited now ip (rate_limits s)))"
  shows "map_option status (fst (handle_client e s now ip request)) = Some 403
         \<longleftrightarrow> \<not> starts_with_base e (resolve e (unquote e target))"
proof -
  have other: "status (answer_of (serve_resource e h q u)) \<noteq> 403" for h q u
    using serve_resource_status [of e h q u] by auto
  show ?thesis
    using assms(2) other
    by (auto simp: handle_client_parsed [OF assms(1)] Let_def send_response_def)
qed

text \<open>
  Claim C5 at a failing input. The served root is \<^verbatim>\<open>/srv/www\<close>; the request path
  \<^verbatim>\<open>/../www-private/secret.html\<close> has a parent-directory segment and resolves to
  \<^verbatim>\<open>/srv/www-private/secret.html\<close>, which does not lie under the root but starts
  with the root's characters. In every mode of Lab 2/server.py, in
  Lab 2/server\_multithreaded.py and in Lab 1/server.py the answer is 200 with the
  contents of the file, not 403.
\<close>

theorem sibling_directory_escapes_root:
  "resolve (example_env Single) (str ''/../www-private/secret.html'')
     = str ''/srv/www-private/secret.html''
   \<and> abspath (str ''/srv'') (str ''/srv/www-private/secret.html'')
     = str ''/srv/www-private/secret.html''
   \<and> \<not> lies_under (str ''/srv/www'') (str ''/srv/www-private/secret.html'')
   \<and> starts_with_base (example_env Single) (str ''/srv/www-private/secret.html'')
   \<and> fst (handle_client (example_env Single) idle 100 ''10.0.0.1''
            (request_for ''GET'' ''/../www-private/secret.html''))
       = Some (send_response 200 ''text/html'' (Bytes (str ''secret'')))
   \<and> fst (handle_client (example_env Multi) idle 100 ''10.0.0.1''
            (request_for ''GET'' ''/../www-private/secret.html''))
       = Some (send_response 200 ''text/html'' (Bytes (str ''secret'')))
   \<and> fst (handle_client (example_env Race) idle 100 ''10.0.0.1''
            (request_for ''GET'' ''/../www-private/secret.html''))
       = Some (send_response 200 ''text/html'' (Bytes (str ''secret'')))
   \<and> fst (handle_client (example_env ThreadSafe) idle 100 ''10.0.0.1''
            (request_for ''GET'' ''/../www-private/secret.html''))
       = Some (send_response 200 ''text/html'' (Bytes (str ''secret'')))
   \<and> fst (handle_client (example_env RateLimited) idle 100 ''10.0.0.1''
            (request_for ''GET'' ''/../www-private/secret.html''))
       = Some (send_response 200 ''text/html'' (Bytes (str ''secret'')))
   \<and> handle_client_multithreaded (example_env Multi)
        (request_for ''GET'' ''/../www-private/secret.html'')
       = Some (send_response 200 ''text/html'' (Bytes (str ''secret'')))
   \<and> handle_request (example_env Single)
        (request_for ''GET'' ''/../www-private/secret.html'')
       = Some (send_response 200 ''text/html'' (Bytes (str ''secret'')))"
  by code_simp

text \<open>A path that leaves the root for a directory with another name is refused.\<close>

lemma traversal_to_etc_forbidden:
  "map_option status (fst (handle_client (example_env ThreadSafe) idle 100 ''10.0.0.1''
      (request_for ''GET'' ''/../../etc/passwd''))) = Some 403
   \<and> map_option status (handle_client_multithreaded (example_env Multi)
      (request_for ''GET'' ''/../../etc/passwd'')) = Some 403
   \<and> map_option status (handle_request (example_env Single)
      (request_for ''GET'' ''/../../etc/passwd'')) = Some 403"
  by code_simp

section \<open>Properties of the hit counter\<close>

lemma sum_list_map_update:
  "i < length xs \<Longrightarrow>
   sum_list (map f (xs[i := y])) = sum_list (map f xs) - f (xs ! i) + (f y :: int)"
proof (induction xs arbitrary: i)
  case Nil
  then show ?case by simp
next
  case (Cons x xs)
  then show ?case by (cases i) auto
qed

lemma hits_get_update:
  "hits_get (h(k \<mapsto> v)) k' = (if k' = k then v else hits_get h k')"
  by (simp add: hits_get_def)

lemma lock_inv_start:
  assumes "m = ThreadSafe \<or> m = RateLimited"
  shows "lock_inv h (start m keys h)"
proof -
  have "sum_list (map (counted k)
          (map (\<lambda>k. \<lparr>key = k, todo = [Acquire, ReadCount, Sleep, WriteCount, Release],
                       current_count = 0\<rparr>) keys)) = 0" for k
    by (induction keys) (simp_all add: counted_def)
  then show ?thesis
    using assms
    by (auto simp: lock_inv_def start_def counter_code_def inside_def outside_def has_read_def)
qed

lemma lock_inv_step:
  assumes inv: "lock_inv h0 c"
  shows "lock_inv h0 (step i c)"
proof (cases "i < length (threads c)")
  case False
  then show ?thesis using inv by (simp add: step_def Let_def)
next
  case True
  let ?t = "threads c ! i"
  have shape: "inside ?t \<or> outside ?t" using inv True unfolding lock_inv_def by blast
  have mine: "inside ?t \<longleftrightarrow> counter_lock c = Some i"
    using inv True unfolding lock_inv_def by blast
  have others: "\<And>j. j < length (threads c) \<Longrightarrow>
                  inside (threads c ! j) \<longleftrightarrow> counter_lock c = Some j"
    using inv unfolding lock_inv_def by blast
  have shapes: "\<And>j. j < length (threads c) \<Longrightarrow> inside (threads c ! j) \<or> outside (threads c ! j)"
    using inv unfolding lock_inv_def by blast
  have reads: "\<And>j. j < length (threads c) \<Longrightarrow> has_read (threads c ! j) \<Longrightarrow>
                  current_count (threads c ! j) = hits_get (hits c) (key (threads c ! j))"
    using inv unfolding lock_inv_def by blast
  have total: "\<And>k. hits_get (hits c) k = hits_get h0 k + sum_list (map (counted k) (threads c))"
    using inv unfolding lock_inv_def by blast
  consider (waiting) "todo ?t = [Acquire, ReadCount, Sleep, WriteCount, Release]"
    | (ended) "todo ?t = []"
    | (acquired) "todo ?t = [ReadCount, Sleep, WriteCount, Release]"
    | (read) "todo ?t = [Sleep, WriteCount, Release]"
    | (slept) "todo ?t = [WriteCount, Release]"
    | (written) "todo ?t = [Release]"
    using shape by (auto simp: inside_def outside_def)
  then show ?thesis
  proof cases
    case ended
    then show ?thesis using inv True by (simp add: step_def Let_def)
  next
    case waiting
    show ?thesis
    proof (cases "counter_lock c = None")
      case False
      then have "step i c = c" using True waiting by (auto simp: step_def Let_def)
      then show ?thesis using inv by simp
    next
      case free: True
      have nobody: "\<And>j. j < length (threads c) \<Longrightarrow> \<not> inside (threads c ! j)"
        using others free by simp
      have st: "step i c = c\<lparr>counter_lock := Some i,
                  threads := (threads c)[i := ?t\<lparr>todo := [ReadCount, Sleep, WriteCount, Release]\<rparr>]\<rparr>"
        using True waiting free by (simp add: step_def Let_def)
      show ?thesis
        unfolding st lock_inv_def
        using True shapes nobody reads total waiting
        by (auto simp: nth_list_update sum_list_map_update counted_def inside_def outside_def has_read_def)
    qed
  next
    case acquired
    have st: "step i c = c\<lparr>threads := (threads c)[i := ?t\<lparr>todo := [Sleep, WriteCount, Release],
                  current_count := hits_get (hits c) (key ?t)\<rparr>]\<rparr>"
      using True acquired by (simp add: step_def Let_def)
    have held: "counter_lock c = Some i" using mine acquired by (simp add: inside_def)
    show ?thesis
      unfolding st lock_inv_def
      using True shapes others reads total held acquired
      by (auto simp: nth_list_update sum_list_map_update counted_def inside_def outside_def has_read_def)
  next
    case read
    have st: "step i c = c\<lparr>threads := (threads c)[i := ?t\<lparr>todo := [WriteCount, Release]\<rparr>]\<rparr>"
      using True read by (simp add: step_def Let_def)
    have held: "counter_lock c = Some i" using mine read by (simp add: inside_def)
    have cur: "current_count ?t = hits_get (hits c) (key ?t)"
      using reads [OF True] read by (simp add: has_read_def)
    show ?thesis
      unfolding st lock_inv_def
      using True shapes others reads total held cur read
      by (auto simp: nth_list_update sum_list_map_update counted_def inside_def outside_def has_read_def)
  next
    case slept
    have st: "step i c = c\<lparr>hits := (hits c)(key ?t \<mapsto> current_count ?t + 1),
                threads := (threads c)[i := ?t\<lparr>todo := [Release]\<rparr>]\<rparr>"
      using True slept by (simp add: step_def Let_def)
    have held: "counter_lock c = Some i" using mine slept by (simp add: inside_def)
    have cur: "current_count ?t = hits_get (hits c) (key ?t)"
      using reads [OF True] slept by (simp add: has_read_def)
    have alone: "\<And>j. j < length (threads c) \<Longrightarrow> j \<noteq> i \<Longrightarrow> \<not> has_read (threads c ! j)"
      using others held by (auto simp: inside_def has_read_def)
    show ?thesis
      unfolding st lock_inv_def
      using True shapes others total held cur alone slept
      by (auto simp: nth_list_update sum_list_map_update counted_def hits_get_update
            inside_def outside_def has_read_def)
  next
    case written
    have st: "step i c = c\<lparr>counter_lock := None,
                threads := (threads c)[i := ?t\<lparr>todo := []\<rparr>]\<rparr>"
      using True written by (simp add: step_def Let_def)
    have held: "counter_lock c = Some i" using mine written by (simp add: inside_def)
    have alone: "\<And>j. j < length (threads c) \<Longrightarrow> j \<noteq> i \<Longrightarrow> \<not> inside (threads c ! j)"
      using others held by auto
    show ?thesis
      unfolding st lock_inv_def
      using True shapes reads total alone written
      by (auto simp: nth_list_update sum_list_map_update counted_def inside_def outside_def has_read_def)
  qed
qed

lemma lock_inv_run: "lock_inv h0 c \<Longrightarrow> lock_inv h0 (run schedule c)"
  unfolding run_def
  by (induction schedule arbitrary: c) (simp_all add: lock_inv_step)

lemma keys_step: "map key (threads (step i c)) = map key (threads c)"
  by (auto simp: step_def Let_def map_update list_update_same_conv
        split: list.split op.split)

lemma keys_run: "map key (threads (run schedule c)) = map key (threads c)"
  unfolding run_def
  by (induction schedule arbitrary: c) (simp_all add: keys_step)

lemma counted_finished:
  "list_all (\<lambda>t. todo t = []) ts \<Longrightarrow>
   sum_list (map (counted k) ts) = int (count_list (map key ts) k)"
  by (induction ts) (auto simp: counted_def)

text \<open>
  Claim C1. Let handlers, one per element of \<open>keys\<close>, enter the locked counter code of
  ThreadSafe or RateLimited mode, \<open>N\<close> of them with the key \<open>k\<close>. Whatever the schedule
  (the interleaving of their steps), once all of them have run to completion the count
  stored for \<open>k\<close> is the count before plus \<open>N\<close>: exactly \<open>N\<close> when the key had no count
  yet. No update is lost.
\<close>

theorem locked_increments_are_not_lost:
  assumes "m = ThreadSafe \<or> m = RateLimited"
    and "finished (run schedule (start m keys h))"
    and "count_list keys k = N"
  shows "hits_get (hits (run schedule (start m keys h))) k = hits_get h k + int N"
proof -
  let ?c = "run schedule (start m keys h)"
  have inv: "lock_inv h ?c"
    using lock_inv_start [OF assms(1)] by (rule lock_inv_run)
  have "hits_get (hits ?c) k = hits_get h k + sum_list (map (counted k) (threads ?c))"
    using inv unfolding lock_inv_def by blast
  moreover have "sum_list (map (counted k) (threads ?c)) = int (count_list (map key (threads ?c)) k)"
    using assms(2) unfolding finished_def by (rule counted_finished)
  moreover have "map key (threads ?c) = keys"
    by (simp add: keys_run start_def comp_def)
  ultimately show ?thesis using assms(3) by simp
qed

theorem locked_increments_are_not_lost_witness:
  "finished (run [0, 1, 2, 0, 1, 3, 0, 2, 0, 0, 1, 3, 3, 1, 1, 2, 3, 1, 1, 2, 3, 2, 3, 2, 2, 3, 2,
               3, 3, 3, 3, 3]
              (start ThreadSafe [str ''/srv/www/a.html'', str ''/srv/www/a.html'', str ''/srv/www/b.html'',
                                 str ''/srv/www/a.html''] Map.empty))
   \<and> hits (run [0, 1, 2, 0, 1, 3, 0, 2, 0, 0, 1, 3, 3, 1, 1, 2, 3, 1, 1, 2, 3, 2, 3, 2, 2, 3, 2,
               3, 3, 3, 3, 3]
              (start ThreadSafe [str ''/srv/www/a.html'', str ''/srv/www/a.html'', str ''/srv/www/b.html'',
                                 str ''/srv/www/a.html''] Map.empty)) (str ''/srv/www/a.html'') = Some 3
   \<and> hits_get (hits (run [0, 1, 2, 0, 1, 3, 0, 2, 0, 0, 1, 3, 3, 1, 1, 2, 3, 1, 1, 2, 3, 2, 3, 2, 2, 3, 2,
               3, 3, 3, 3, 3]
              (start ThreadSafe [str ''/srv/www/a.html'', str ''/srv/www/a.html'', str ''/srv/www/b.html'',
                                 str ''/srv/www/a.html''] Map.empty))) (str ''/srv/www/a.html'') = 3"
proof -
  let ?schedule = "[0, 1, 2, 0, 1, 3, 0, 2, 0, 0, 1, 3, 3, 1, 1, 2, 3, 1, 1, 2, 3, 2, 3, 2, 2, 3, 2,
               3, 3, 3, 3, 3]
                     :: nat list"
  let ?keys = "[str ''/srv/www/a.html'', str ''/srv/www/a.html'', str ''/srv/www/b.html'', str ''/srv/www/a.html'']"
  have m: "ThreadSafe = ThreadSafe \<or> ThreadSafe = RateLimited" by simp
  have f: "finished (run ?schedule (start ThreadSafe ?keys Map.empty))" by code_simp
  have n: "count_list ?keys (str ''/srv/www/a.html'') = 3" by (simp add: str_def)
  have s: "hits (run ?schedule (start ThreadSafe ?keys Map.empty)) (str ''/srv/www/a.html'') = Some 3"
    by code_simp
  have "hits_get (hits (run ?schedule (start ThreadSafe ?keys Map.empty))) (str ''/srv/www/a.html'')
          = hits_get Map.empty (str ''/srv/www/a.html'') + int 3"
    using locked_increments_are_not_lost [OF m f n] .
  then have "hits_get (hits (run ?schedule (start ThreadSafe ?keys Map.empty))) (str ''/srv/www/a.html'')
          = 3"
    by (simp add: hits_get_def)
  then show ?thesis using f s by (intro conjI)
qed

text \<open>
  Without the lock the same steps lose updates: in Race mode two handlers of one key that
  both read before either writes leave the count 1.
\<close>

lemma race_loses_update:
  "finished (run [0, 1, 0, 1, 0, 1] (start Race [str ''/srv/www/a.html'', str ''/srv/www/a.html''] Map.empty))
   \<and> hits (run [0, 1, 0, 1, 0, 1]
             (start Race [str ''/srv/www/a.html'', str ''/srv/www/a.html''] Map.empty)) (str ''/srv/www/a.html'')
       = Some 1"
  by code_simp

text \<open>
  Completion is always possible: handlers that run one after the other all finish.
\<close>

lemma run_append: "run (xs @ ys) c = run ys (run xs c)"
  by (simp add: run_def)

lemma run_whole_code:
  assumes "i < length (threads c)"
    and "todo (threads c ! i) = [Acquire, ReadCount, Sleep, WriteCount, Release]"
    and "counter_lock c = None"
  shows "counter_lock (run (replicate 5 i) c) = None
       \<and> length (threads (run (replicate 5 i) c)) = length (threads c)
       \<and> todo (threads (run (replicate 5 i) c) ! i) = []
       \<and> (\<forall>j. j \<noteq> i \<longrightarrow> threads (run (replicate 5 i) c) ! j = threads c ! j)"
  using assms
  by (simp add: run_def numeral_eq_Suc step_def Let_def)

lemma sequential_prefix:
  assumes "m = ThreadSafe \<or> m = RateLimited" and "n \<le> length keys"
  shows "counter_lock (run (sequential m n) (start m keys h)) = None
       \<and> length (threads (run (sequential m n) (start m keys h))) = length keys
       \<and> (\<forall>j < length keys.
            todo (threads (run (sequential m n) (start m keys h)) ! j)
              = (if j < n then [] else [Acquire, ReadCount, Sleep, WriteCount, Release]))"
  using assms(2)
proof (induction n)
  case 0
  show ?case using assms(1) by (auto simp: sequential_def run_def start_def counter_code_def)
next
  case (Suc n)
  let ?c = "run (sequential m n) (start m keys h)"
  have len: "length (counter_code m) = 5" using assms(1) by (auto simp: counter_code_def)
  have seq: "sequential m (Suc n) = sequential m n @ replicate 5 n"
    by (simp add: sequential_def len)
  have ih: "counter_lock ?c = None \<and> length (threads ?c) = length keys
       \<and> (\<forall>j < length keys. todo (threads ?c ! j)
              = (if j < n then [] else [Acquire, ReadCount, Sleep, WriteCount, Release]))"
    using Suc by simp
  have n: "n < length (threads ?c)" using ih Suc.prems by simp
  have td: "todo (threads ?c ! n) = [Acquire, ReadCount, Sleep, WriteCount, Release]"
    using ih Suc.prems by simp
  have lk: "counter_lock ?c = None" using ih by simp
  note w = run_whole_code [OF n td lk]
  show ?case
    unfolding seq run_append
    using w ih by (auto simp: less_Suc_eq)
qed

lemma sequential_finishes:
  assumes "m = ThreadSafe \<or> m = RateLimited"
  shows "finished (run (sequential m (length keys)) (start m keys h))"
  using sequential_prefix [OF assms, of "length keys" keys h]
  by (auto simp: finished_def list_all_length)

lemma listing_row_counter_modes:
  "listing_row (e\<lparr>server_mode := Race\<rparr>) h p u
     = listing_row (e\<lparr>server_mode := ThreadSafe\<rparr>) h p u"
  by (intro ext) (simp add: listing_row_def os_path_isdir_def counter_mode_def)

lemma serve_resource_counter_modes:
  "serve_resource (e\<lparr>server_mode := Race\<rparr>) h p u
     = serve_resource (e\<lparr>server_mode := ThreadSafe\<rparr>) h p u"
  by (simp add: serve_resource_def generate_directory_listing_def listing_row_counter_modes
        listing_encodable_def get_content_type_def os_path_isdir_def read_file_def Let_def
        split: option.split node.split sum.split)

text \<open>
  Claim C7. The counter code of Race mode is read, sleep, write; the counter code of
  ThreadSafe mode is the same three steps between acquiring and releasing the lock, and
  nothing else. Run alone from entry to exit, the two compute the same function on the
  counter store (the count of the key goes up by one), so any sequence of increments run
  one after the other gives the same store in both modes, and the handler as a whole
  gives the same response and the same state in both modes.
\<close>

theorem race_and_threadsafe_differ_only_in_lock:
  "counter_code Race = [ReadCount, Sleep, WriteCount]
   \<and> counter_code ThreadSafe = [Acquire] @ counter_code Race @ [Release]
   \<and> counter_update Race file_path h = h(file_path \<mapsto> hits_get h file_path + 1)
   \<and> counter_update ThreadSafe file_path h = counter_update Race file_path h
   \<and> fold (counter_update ThreadSafe) keys h = fold (counter_update Race) keys h
   \<and> handle_client (e\<lparr>server_mode := ThreadSafe\<rparr>) s now ip request
       = handle_client (e\<lparr>server_mode := Race\<rparr>) s now ip request"
proof -
  have u: "counter_update ThreadSafe = counter_update Race"
    by (intro ext) (simp add: counter_update_eq counter_mode_def)
  have hc: "handle_client (e\<lparr>server_mode := ThreadSafe\<rparr>) s now ip request
          = handle_client (e\<lparr>server_mode := Race\<rparr>) s now ip request"
    by (simp add: handle_client_def Let_def u serve_resource_counter_modes resolve_def
          starts_with_base_def os_path_exists_def)
  show ?thesis
    using hc by (simp add: u counter_update_eq counter_mode_def counter_code_def)
qed
end
